theory Spec2Isabelle
  imports Main
begin

section \<open>Velora: configuration validation and NVA routing enforcement\<close>

text \<open>
  A shallow embedding of \<^verbatim>\<open>internal/config/model.go\<close> (the configuration and
  \<^verbatim>\<open>Config.Validate\<close>), of the client factory of package \<^verbatim>\<open>azure\<close> and of
  \<^verbatim>\<open>internal/controllers/routing/routing.go\<close> (\<^verbatim>\<open>EnforceAll\<close>,
  \<^verbatim>\<open>enforceNVARouting\<close>, \<^verbatim>\<open>enforceNVARoutingForVNet\<close>,
  \<^verbatim>\<open>extractResourceIDParts\<close>).

  The Azure SDK is outside the repository. What it answers is an input of the model (the
  record \<open>Provider\<close>); what the code asks of it is recorded in the state that is threaded
  through the run (the record \<open>World\<close>): the client factory's subscription field, the
  create-or-update calls issued so far and the lines printed.
\<close>

subsection \<open>Configuration (model.go)\<close>

record HubVNetConfig =
  VNetID :: string
  ResourceGroup :: string
  Hub_Name :: string
  NVANextHop :: string

record SubscriptionConfig =
  AllowedCIDRs :: "string list"
  HubName :: string
  RequireHubPeering :: bool
  RequireNVARouting :: bool
  SubnetToSubnetDeny :: bool

record FeaturesConfig =
  IPAMEnforcement :: bool
  RoutingEnforcement :: bool
  PeeringEnforcement :: bool
  ComplianceScanning :: bool
  AutoRemediation :: bool

text \<open>
  \<^verbatim>\<open>Subscriptions\<close> is a Go map; a \<^verbatim>\<open>range\<close> over it visits every entry once, in an
  order the runtime chooses. The model holds the entries as a list in the order of the
  visit, so a statement about every list is a statement about every order. The fields
  \<^verbatim>\<open>Azure\<close>, \<^verbatim>\<open>API\<close> and \<^verbatim>\<open>Logging\<close> are read neither by \<^verbatim>\<open>Validate\<close> nor by the
  routing enforcement and are left out.
\<close>

record Config =
  Hubs :: "HubVNetConfig list"
  Subscriptions :: "(string \<times> SubscriptionConfig) list"
  Features :: FeaturesConfig

subsection \<open>Errors\<close>

text \<open>
  An error of the provider (the SDK). The code never looks inside one; the two kinds are
  there so that a statement can tell a transient failure from a permanent one.
\<close>

datatype provider_error = TransientError string | PermanentError string

datatype client_kind = VirtualNetworksClient | SubnetsClient | RoutesClient

text \<open>One constructor for each \<^verbatim>\<open>fmt.Errorf\<close> of the source, with its arguments.\<close>

datatype error =
    InvalidCIDR string
  | HubRequired
  | InvalidNVAIP string
  | HubNotFound string string
  | FailedNVARouting string error
  | FailedSubnetIsolation string error
  | FailedCreateClient client_kind provider_error
  | FailedListVNets provider_error
  | InvalidVNetID string
  | FailedListSubnets provider_error
  | FailedListRoutes provider_error
  | NoNVAIPs string
  | FailedCreateOrUpdate string provider_error
  | IsolationError string

text \<open>
  What a function of the source gives back: a value (a nil error), an error, or a panic on
  a nil pointer, which no \<^verbatim>\<open>if err != nil\<close> catches and no caller wraps.
\<close>

datatype 'a result = Ok 'a | Err error | Panic

subsection \<open>\<^verbatim>\<open>Config.Validate\<close>\<close>

text \<open>
  \<^verbatim>\<open>net.ParseCIDR\<close> and \<^verbatim>\<open>net.ParseIP\<close> belong to Go's standard library; whether they
  accept a string is a parameter (\<open>cidr_ok\<close>, \<open>ip_ok\<close>).
\<close>

fun validateCIDRs :: "(string \<Rightarrow> bool) \<Rightarrow> string list \<Rightarrow> error option" where
  "validateCIDRs cidr_ok [] = None"
| "validateCIDRs cidr_ok (cidr # rest) =
     (if \<not> cidr_ok cidr then Some (InvalidCIDR cidr) else validateCIDRs cidr_ok rest)"

fun validateSubscriptions ::
  "(string \<Rightarrow> bool) \<Rightarrow> (string \<times> SubscriptionConfig) list \<Rightarrow> error option" where
  "validateSubscriptions cidr_ok [] = None"
| "validateSubscriptions cidr_ok ((subID, subConfig) # rest) =
     (case validateCIDRs cidr_ok (AllowedCIDRs subConfig) of
        Some e \<Rightarrow> Some e
      | None \<Rightarrow> validateSubscriptions cidr_ok rest)"

fun validateHubs :: "(string \<Rightarrow> bool) \<Rightarrow> HubVNetConfig list \<Rightarrow> error option" where
  "validateHubs ip_ok [] = None"
| "validateHubs ip_ok (hub # rest) =
     (if NVANextHop hub \<noteq> [] \<and> \<not> ip_ok (NVANextHop hub)
      then Some (InvalidNVAIP (NVANextHop hub))
      else validateHubs ip_ok rest)"

definition Validate :: "(string \<Rightarrow> bool) \<Rightarrow> (string \<Rightarrow> bool) \<Rightarrow> Config \<Rightarrow> error option" where
  "Validate cidr_ok ip_ok c =
     (case validateSubscriptions cidr_ok (Subscriptions c) of
        Some e \<Rightarrow> Some e
      | None \<Rightarrow>
          if length (Hubs c) = 0 then Some HubRequired
          else validateHubs ip_ok (Hubs c))"

subsection \<open>The SDK's resources\<close>

text \<open>
  The SDK's structs hold pointers; a field the code dereferences is an \<open>option\<close>, and
  \<open>None\<close> is the nil pointer. The elements of a page are taken to be non-nil.
\<close>

record RoutePropertiesFormat =
  AddressPrefix :: "string option"
  NextHopType :: "string option"
  NextHopIPAddress :: "string option"

record Route =
  Route_Properties :: "RoutePropertiesFormat option"

record RouteTable =
  RouteTable_ID :: "string option"

record SubnetPropertiesFormat =
  Subnet_RouteTable :: "RouteTable option"

record Subnet =
  Subnet_Name :: "string option"
  Subnet_Properties :: "SubnetPropertiesFormat option"

record VirtualNetwork =
  VNet_ID :: "string option"
  VNet_Name :: "string option"

definition RouteNextHopTypeVirtualAppliance :: string where
  "RouteNextHopTypeVirtualAppliance = ''VirtualAppliance''"

text \<open>
  One call of \<^verbatim>\<open>RoutesClient.BeginCreateOrUpdate\<close>: the subscription the client was made
  for and the four arguments of the call.
\<close>

record CreateOrUpdateCall =
  subscription :: string
  resourceGroupName :: string
  routeTableName :: string
  routeName :: string
  routeParameters :: Route

text \<open>
  A pager is the list of the pages it will deliver, each one the values of the page or
  the error of \<^verbatim>\<open>NextPage\<close>; \<^verbatim>\<open>More\<close> holds while the list is not empty. The answers of
  the provider may depend on the create-or-update calls made before the pager was made.
\<close>

type_synonym 'a pages = "(provider_error + 'a list) list"

record Provider =
  clientError :: "client_kind \<Rightarrow> string \<Rightarrow> provider_error option"
  vnetPages :: "CreateOrUpdateCall list \<Rightarrow> string \<Rightarrow> VirtualNetwork pages"
  subnetPages :: "CreateOrUpdateCall list \<Rightarrow> string \<Rightarrow> string \<Rightarrow> string \<Rightarrow> Subnet pages"
  routePages :: "CreateOrUpdateCall list \<Rightarrow> string \<Rightarrow> string \<Rightarrow> string \<Rightarrow> Route pages"
  createOrUpdateError :: "CreateOrUpdateCall list \<Rightarrow> CreateOrUpdateCall \<Rightarrow> provider_error option"

subsection \<open>The client factory (package azure)\<close>

text \<open>The credential and the client options are never changed and are left out.\<close>

record ClientFactory =
  subscriptionID :: string

definition GetSubscriptionID :: "ClientFactory \<Rightarrow> string" where
  "GetSubscriptionID f = subscriptionID f"

definition SetSubscriptionID :: "string \<Rightarrow> ClientFactory \<Rightarrow> ClientFactory" where
  "SetSubscriptionID subID f = f\<lparr>subscriptionID := subID\<rparr>"

text \<open>A client is the subscription it was made for.\<close>

definition NewClient :: "Provider \<Rightarrow> client_kind \<Rightarrow> ClientFactory \<Rightarrow> string result" where
  "NewClient P k f =
     (case clientError P k (subscriptionID f) of
        Some e \<Rightarrow> Err (FailedCreateClient k e)
      | None \<Rightarrow> Ok (subscriptionID f))"

definition NewVirtualNeworksClient :: "Provider \<Rightarrow> ClientFactory \<Rightarrow> string result" where
  "NewVirtualNeworksClient P f = NewClient P VirtualNetworksClient f"

definition NewSubnetsClient :: "Provider \<Rightarrow> ClientFactory \<Rightarrow> string result" where
  "NewSubnetsClient P f = NewClient P SubnetsClient f"

definition NewRoutesClient :: "Provider \<Rightarrow> ClientFactory \<Rightarrow> string result" where
  "NewRoutesClient P f = NewClient P RoutesClient f"

subsection \<open>The state of a run\<close>

record World =
  clientFactory :: ClientFactory
  calls :: "CreateOrUpdateCall list"
  printed :: "string list"

subsection \<open>\<^verbatim>\<open>extractResourceIDParts\<close>\<close>

text \<open>\<^verbatim>\<open>strings.Split(s, "/")\<close>: the pieces between the separators; one empty piece for the empty string.\<close>

fun split_slash :: "string \<Rightarrow> string list" where
  "split_slash [] = [[]]"
| "split_slash (c # cs) =
     (if c = CHR ''/'' then [] # split_slash cs
      else (case split_slash cs of
              [] \<Rightarrow> [[c]]
            | p # ps \<Rightarrow> (c # p) # ps))"

text \<open>
  The loop \<^verbatim>\<open>for i := 1; i < len(parts)-1; i += 2\<close> stores
  \<^verbatim>\<open>result[parts[i]] = parts[i+1]\<close>: \<open>store_pairs\<close> runs over \<^verbatim>\<open>parts[1:]\<close>, two at a
  time, and a later pair overwrites an earlier one with the same key.
\<close>

fun store_pairs :: "(string \<rightharpoonup> string) \<Rightarrow> string list \<Rightarrow> (string \<rightharpoonup> string)" where
  "store_pairs m (k # v # rest) = store_pairs (m(k \<mapsto> v)) rest"
| "store_pairs m rest = m"

definition extractResourceIDParts :: "string \<Rightarrow> (string \<rightharpoonup> string)" where
  "extractResourceIDParts resourceID = store_pairs Map.empty (tl (split_slash resourceID))"

text \<open>Reading a Go map of strings: the empty string for a key that is not there.\<close>

definition lookup :: "(string \<rightharpoonup> string) \<Rightarrow> string \<Rightarrow> string" where
  "lookup m k = (case m k of None \<Rightarrow> [] | Some v \<Rightarrow> v)"

subsection \<open>The scan of a route table (routing.go, lines 134 to 161)\<close>

text \<open>
  The state of the scan is the pair \<^verbatim>\<open>(defaultRouteExists, defaultRouteCorrect)\<close>.
  \<open>scanRoutePage\<close> is the inner loop over the routes of one page: at the first route whose
  prefix is \<^verbatim>\<open>0.0.0.0/0\<close> it sets \<^verbatim>\<open>defaultRouteExists\<close>, sets
  \<^verbatim>\<open>defaultRouteCorrect\<close> when the next hop is the hub's appliance, and breaks. The
  \<^verbatim>\<open>break\<close> leaves the inner loop only: \<open>scanRoutePages\<close>, the loop over the pages,
  goes on with the next page and with the state as it is.
\<close>

fun scanRoutePage :: "HubVNetConfig \<Rightarrow> Route list \<Rightarrow> bool \<times> bool \<Rightarrow> (bool \<times> bool) result" where
  "scanRoutePage hubCFG [] st = Ok st"
| "scanRoutePage hubCFG (route # rest) (defaultRouteExists, defaultRouteCorrect) =
     (case Route_Properties route of
        None \<Rightarrow> Panic
      | Some props \<Rightarrow>
          if AddressPrefix props = Some ''0.0.0.0/0'' then
            (if NextHopType props = Some RouteNextHopTypeVirtualAppliance
                \<and> NextHopIPAddress props = Some (NVANextHop hubCFG)
             then Ok (True, True)
             else Ok (True, defaultRouteCorrect))
          else scanRoutePage hubCFG rest (defaultRouteExists, defaultRouteCorrect))"

fun scanRoutePages :: "HubVNetConfig \<Rightarrow> Route pages \<Rightarrow> bool \<times> bool \<Rightarrow> (bool \<times> bool) result" where
  "scanRoutePages hubCFG [] st = Ok st"
| "scanRoutePages hubCFG (routePage # later) st =
     (case routePage of
        Inl err \<Rightarrow> Err (FailedListRoutes err)
      | Inr page \<Rightarrow>
          (case scanRoutePage hubCFG page st of
             Ok st' \<Rightarrow> scanRoutePages hubCFG later st'
           | Err e \<Rightarrow> Err e
           | Panic \<Rightarrow> Panic))"

subsection \<open>One subnet (routing.go, lines 113 to 190)\<close>

text \<open>The route the code asks for (lines 172 to 182) and the call that carries it (line 185).\<close>

definition defaultRouteName :: string where
  "defaultRouteName = ''DefaultRoute-To-NVA''"

definition routeParams :: "string \<Rightarrow> Route" where
  "routeParams nvaNH =
     \<lparr>Route_Properties = Some \<lparr>AddressPrefix = Some ''0.0.0.0/0'',
        NextHopType = Some RouteNextHopTypeVirtualAppliance,
        NextHopIPAddress = Some nvaNH\<rparr>\<rparr>"

definition defaultRouteCall :: "string \<Rightarrow> string \<Rightarrow> string \<Rightarrow> string \<Rightarrow> CreateOrUpdateCall" where
  "defaultRouteCall client rtResourceGroup rtName nvaNH =
     \<lparr>subscription = client, resourceGroupName = rtResourceGroup, routeTableName = rtName,
      routeName = defaultRouteName, routeParameters = routeParams nvaNH\<rparr>"

definition noRouteTableWarning :: "string \<Rightarrow> string" where
  "noRouteTableWarning name = ''WARNING: No route table found for subnet: '' @ name"

text \<open>
  The body of the loop over the subnets of a page. \<open>Ok ()\<close> is the end of the body or its
  \<^verbatim>\<open>continue\<close>: the loop goes on with the next subnet.
\<close>

definition enforceSubnet ::
  "Provider \<Rightarrow> HubVNetConfig \<Rightarrow> Subnet \<Rightarrow> World \<Rightarrow> unit result \<times> World" where
  "enforceSubnet P hubCFG subnet w =
     (case Subnet_Properties subnet of
        None \<Rightarrow> (Panic, w)
      | Some sprops \<Rightarrow>
          (case Subnet_RouteTable sprops of
             None \<Rightarrow>
               (case Subnet_Name subnet of
                  None \<Rightarrow> (Panic, w)
                | Some name \<Rightarrow> (Ok (), w\<lparr>printed := printed w @ [noRouteTableWarning name]\<rparr>))
           | Some rt \<Rightarrow>
               (case RouteTable_ID rt of
                  None \<Rightarrow> (Panic, w)
                | Some rtID \<Rightarrow>
                    (let rtParts = extractResourceIDParts rtID;
                         rtResourceGroup = lookup rtParts ''resourceGroups'';
                         rtName = lookup rtParts ''routeTables''
                     in case NewRoutesClient P (clientFactory w) of
                          Err e \<Rightarrow> (Err e, w)
                        | Panic \<Rightarrow> (Panic, w)
                        | Ok routesClient \<Rightarrow>
                            (case scanRoutePages hubCFG
                                    (routePages P (calls w) routesClient rtResourceGroup rtName)
                                    (False, False) of
                               Err e \<Rightarrow> (Err e, w)
                             | Panic \<Rightarrow> (Panic, w)
                             | Ok (defaultRouteExists, defaultRouteCorrect) \<Rightarrow>
                                 if \<not> defaultRouteExists \<or> \<not> defaultRouteCorrect then
                                   (if NVANextHop hubCFG = [] then
                                      (Err (NoNVAIPs (Hub_Name hubCFG)), w)
                                    else
                                      (let call = defaultRouteCall routesClient rtResourceGroup
                                                    rtName (NVANextHop hubCFG);
                                           w' = w\<lparr>calls := calls w @ [call]\<rparr>
                                       in case createOrUpdateError P (calls w) call of
                                            None \<Rightarrow> (Ok (), w')
                                          | Some err \<Rightarrow>
                                              (case Subnet_Name subnet of
                                                 None \<Rightarrow> (Panic, w')
                                               | Some name \<Rightarrow>
                                                   (Err (FailedCreateOrUpdate name err), w'))))
                                 else (Ok (), w))))))"

subsection \<open>\<^verbatim>\<open>enforceNVARoutingForVNet\<close>\<close>

fun enforceSubnets ::
  "Provider \<Rightarrow> HubVNetConfig \<Rightarrow> Subnet list \<Rightarrow> World \<Rightarrow> unit result \<times> World" where
  "enforceSubnets P hubCFG [] w = (Ok (), w)"
| "enforceSubnets P hubCFG (subnet # rest) w =
     (case enforceSubnet P hubCFG subnet w of
        (Ok u, w') \<Rightarrow> enforceSubnets P hubCFG rest w'
      | (Err e, w') \<Rightarrow> (Err e, w')
      | (Panic, w') \<Rightarrow> (Panic, w'))"

fun enforceSubnetPages ::
  "Provider \<Rightarrow> HubVNetConfig \<Rightarrow> Subnet pages \<Rightarrow> World \<Rightarrow> unit result \<times> World" where
  "enforceSubnetPages P hubCFG [] w = (Ok (), w)"
| "enforceSubnetPages P hubCFG (page # later) w =
     (case page of
        Inl err \<Rightarrow> (Err (FailedListSubnets err), w)
      | Inr subnets \<Rightarrow>
          (case enforceSubnets P hubCFG subnets w of
             (Ok u, w') \<Rightarrow> enforceSubnetPages P hubCFG later w'
           | (Err e, w') \<Rightarrow> (Err e, w')
           | (Panic, w') \<Rightarrow> (Panic, w')))"

definition enforceNVARoutingForVNet ::
  "Provider \<Rightarrow> string \<Rightarrow> string \<Rightarrow> HubVNetConfig \<Rightarrow> World \<Rightarrow> unit result \<times> World" where
  "enforceNVARoutingForVNet P vnetID vnetName hubCFG w =
     (let parts = extractResourceIDParts vnetID
      in if lookup parts ''resourceGroups'' = [] then (Err (InvalidVNetID vnetID), w)
         else
           (let resourceGroup = lookup parts ''resourceGroups''
            in case NewSubnetsClient P (clientFactory w) of
                 Err e \<Rightarrow> (Err e, w)
               | Panic \<Rightarrow> (Panic, w)
               | Ok subnetsClient \<Rightarrow>
                   enforceSubnetPages P hubCFG
                     (subnetPages P (calls w) subnetsClient resourceGroup vnetName) w))"

subsection \<open>\<^verbatim>\<open>enforceNVARouting\<close>\<close>

fun enforceVNets ::
  "Provider \<Rightarrow> HubVNetConfig \<Rightarrow> VirtualNetwork list \<Rightarrow> World \<Rightarrow> unit result \<times> World" where
  "enforceVNets P hubCFG [] w = (Ok (), w)"
| "enforceVNets P hubCFG (vnet # rest) w =
     (case VNet_ID vnet of
        None \<Rightarrow> (Panic, w)
      | Some vnetID \<Rightarrow>
          (case VNet_Name vnet of
             None \<Rightarrow> (Panic, w)
           | Some vnetName \<Rightarrow>
               (case enforceNVARoutingForVNet P vnetID vnetName hubCFG w of
                  (Ok u, w') \<Rightarrow> enforceVNets P hubCFG rest w'
                | (Err e, w') \<Rightarrow> (Err e, w')
                | (Panic, w') \<Rightarrow> (Panic, w'))))"

fun enforceVNetPages ::
  "Provider \<Rightarrow> HubVNetConfig \<Rightarrow> VirtualNetwork pages \<Rightarrow> World \<Rightarrow> unit result \<times> World" where
  "enforceVNetPages P hubCFG [] w = (Ok (), w)"
| "enforceVNetPages P hubCFG (page # later) w =
     (case page of
        Inl err \<Rightarrow> (Err (FailedListVNets err), w)
      | Inr vnets \<Rightarrow>
          (case enforceVNets P hubCFG vnets w of
             (Ok u, w') \<Rightarrow> enforceVNetPages P hubCFG later w'
           | (Err e, w') \<Rightarrow> (Err e, w')
           | (Panic, w') \<Rightarrow> (Panic, w')))"

definition enforceNVARouting ::
  "Provider \<Rightarrow> string \<Rightarrow> HubVNetConfig \<Rightarrow> World \<Rightarrow> unit result \<times> World" where
  "enforceNVARouting P subID hubCFG w =
     (case NewVirtualNeworksClient P (clientFactory w) of
        Err e \<Rightarrow> (Err e, w)
      | Panic \<Rightarrow> (Panic, w)
      | Ok vnetsClient \<Rightarrow> enforceVNetPages P hubCFG (vnetPages P (calls w) vnetsClient) w)"

subsection \<open>\<^verbatim>\<open>Enforcer.EnforceAll\<close>\<close>

text \<open>
  \<^verbatim>\<open>enforceSubnetIsolation\<close> is called by \<^verbatim>\<open>EnforceAll\<close> and defined in no file of the
  repository: it is a parameter, \<open>isolation\<close>, that may fail and may change the state.

  \<open>enforceSubscription\<close> is the body of the loop over the subscriptions (lines 30 to 60):
  it first stores the subscription in the shared client factory.
\<close>

type_synonym isolation = "string \<Rightarrow> World \<Rightarrow> unit result \<times> World"

definition wrapErr :: "(error \<Rightarrow> error) \<Rightarrow> unit result \<times> World \<Rightarrow> unit result \<times> World" where
  "wrapErr f rw =
     (case rw of
        (Ok u, w) \<Rightarrow> (Ok u, w)
      | (Err e, w) \<Rightarrow> (Err (f e), w)
      | (Panic, w) \<Rightarrow> (Panic, w))"

definition enforceSubscription ::
  "Provider \<Rightarrow> isolation \<Rightarrow> Config \<Rightarrow> string \<times> SubscriptionConfig \<Rightarrow> World
     \<Rightarrow> unit result \<times> World" where
  "enforceSubscription P isolation config entry w =
     (let subID = fst entry; subCFG = snd entry;
          w1 = w\<lparr>clientFactory := SetSubscriptionID subID (clientFactory w)\<rparr>
      in if RoutingEnforcement (Features config) then
           (case find (\<lambda>hub. Hub_Name hub = HubName subCFG) (Hubs config) of
              None \<Rightarrow> (Err (HubNotFound (HubName subCFG) subID), w1)
            | Some hubCFG \<Rightarrow>
                (case (if RequireNVARouting subCFG
                       then wrapErr (FailedNVARouting subID) (enforceNVARouting P subID hubCFG w1)
                       else (Ok (), w1)) of
                   (Ok u, w2) \<Rightarrow>
                     (if SubnetToSubnetDeny subCFG
                      then wrapErr (FailedSubnetIsolation subID) (isolation subID w2)
                      else (Ok (), w2))
                 | (Err e, w2) \<Rightarrow> (Err e, w2)
                 | (Panic, w2) \<Rightarrow> (Panic, w2)))
         else (Ok (), w1))"

fun enforceSubscriptions ::
  "Provider \<Rightarrow> isolation \<Rightarrow> Config \<Rightarrow> (string \<times> SubscriptionConfig) list \<Rightarrow> World
     \<Rightarrow> unit result \<times> World" where
  "enforceSubscriptions P isolation config [] w = (Ok (), w)"
| "enforceSubscriptions P isolation config (entry # rest) w =
     (case enforceSubscription P isolation config entry w of
        (Ok u, w') \<Rightarrow> enforceSubscriptions P isolation config rest w'
      | (Err e, w') \<Rightarrow> (Err e, w')
      | (Panic, w') \<Rightarrow> (Panic, w'))"

definition EnforceAll :: "Provider \<Rightarrow> isolation \<Rightarrow> Config \<Rightarrow> World \<Rightarrow> unit result \<times> World" where
  "EnforceAll P isolation config w = enforceSubscriptions P isolation config (Subscriptions config) w"

subsection \<open>Notions of the specification\<close>

text \<open>
  A default route is a route with the prefix \<^verbatim>\<open>0.0.0.0/0\<close>; it is compliant for a hub when
  its next hop is a virtual appliance at the hub's NVA address.
\<close>

definition isDefaultRoute :: "Route \<Rightarrow> bool" where
  "isDefaultRoute r =
     (case Route_Properties r of
        None \<Rightarrow> False
      | Some props \<Rightarrow> AddressPrefix props = Some ''0.0.0.0/0'')"

definition isCompliantRoute :: "HubVNetConfig \<Rightarrow> Route \<Rightarrow> bool" where
  "isCompliantRoute hubCFG r =
     (case Route_Properties r of
        None \<Rightarrow> False
      | Some props \<Rightarrow>
          AddressPrefix props = Some ''0.0.0.0/0''
          \<and> NextHopType props = Some ''VirtualAppliance''
          \<and> NextHopIPAddress props = Some (NVANextHop hubCFG))"

text \<open>The first default route of a sequence of routes, and of a listing taken page after page.\<close>

definition firstDefaultRoute :: "Route list \<Rightarrow> Route option" where
  "firstDefaultRoute rs = find isDefaultRoute rs"

definition pageFirstCompliant :: "HubVNetConfig \<Rightarrow> Route list \<Rightarrow> bool" where
  "pageFirstCompliant hubCFG page =
     (case firstDefaultRoute page of
        None \<Rightarrow> False
      | Some r \<Rightarrow> isCompliantRoute hubCFG r)"

definition allHaveProperties :: "Route list list \<Rightarrow> bool" where
  "allHaveProperties pgs = list_all (list_all (\<lambda>r. Route_Properties r \<noteq> None)) pgs"

text \<open>
  Names for what the body of the subnet loop reads: the identifier of the subnet's route
  table when every pointer on the way is set, the coordinates the code extracts from it
  (lines 124 to 126), and the pages of the pager it makes for the table (line 138).
\<close>

definition subnetRouteTableID :: "Subnet \<Rightarrow> string option" where
  "subnetRouteTableID subnet =
     (case Subnet_Properties subnet of
        None \<Rightarrow> None
      | Some sprops \<Rightarrow>
          (case Subnet_RouteTable sprops of
             None \<Rightarrow> None
           | Some rt \<Rightarrow> RouteTable_ID rt))"

definition rtResourceGroupOf :: "string \<Rightarrow> string" where
  "rtResourceGroupOf rtID = lookup (extractResourceIDParts rtID) ''resourceGroups''"

definition rtNameOf :: "string \<Rightarrow> string" where
  "rtNameOf rtID = lookup (extractResourceIDParts rtID) ''routeTables''"

definition listedRoutes :: "Provider \<Rightarrow> World \<Rightarrow> string \<Rightarrow> Route pages" where
  "listedRoutes P w rtID =
     routePages P (calls w) (subscriptionID (clientFactory w)) (rtResourceGroupOf rtID) (rtNameOf rtID)"

text \<open>
  Modelled from the spec: the effect of create-or-update on the topology, which is the
  provider's and in no file of the repository. Section 4.2 describes the call as the
  idempotent write of a full payload: it puts the route under its name in the route
  table, so the topology is a store from the coordinates of a route to the route.
\<close>

type_synonym Topology = "string \<times> string \<times> string \<times> string \<rightharpoonup> Route"

definition applyCall :: "Topology \<Rightarrow> CreateOrUpdateCall \<Rightarrow> Topology" where
  "applyCall t c =
     t((subscription c, resourceGroupName c, routeTableName c, routeName c) \<mapsto> routeParameters c)"

definition applyCalls :: "Topology \<Rightarrow> CreateOrUpdateCall list \<Rightarrow> Topology" where
  "applyCalls t cs = foldl applyCall t cs"

text \<open>The calls a run has added to the state it started from.\<close>

definition issued :: "World \<Rightarrow> World \<Rightarrow> CreateOrUpdateCall list" where
  "issued w w' = drop (length (calls w)) (calls w')"

text \<open>
  A create-or-update of the default route towards a hub's NVA, whatever the route table;
  and a step of a run that leaves the client factory alone and adds only such calls.
\<close>

definition isDefaultRouteCall :: "HubVNetConfig \<Rightarrow> CreateOrUpdateCall \<Rightarrow> bool" where
  "isDefaultRouteCall hubCFG c =
     (routeName c = ''DefaultRoute-To-NVA''
      \<and> routeParameters c =
          \<lparr>Route_Properties = Some \<lparr>AddressPrefix = Some ''0.0.0.0/0'',
             NextHopType = Some ''VirtualAppliance'',
             NextHopIPAddress = Some (NVANextHop hubCFG)\<rparr>\<rparr>)"

definition routingStep :: "HubVNetConfig \<Rightarrow> World \<Rightarrow> World \<Rightarrow> bool" where
  "routingStep hubCFG w w' =
     (clientFactory w' = clientFactory w
      \<and> take (length (calls w)) (calls w') = calls w
      \<and> list_all (isDefaultRouteCall hubCFG) (issued w w'))"

subsection \<open>The retry of a mutation inside the SDK's client\<close>

text \<open>
  Modelled from the spec: the retry of a mutation by the SDK's client, which
  \<^verbatim>\<open>NewClientFactory\<close> makes with the default options (\<^verbatim>\<open>&arm.ClientOptions{}\<close>) and
  whose pipeline is in no file of the repository. Section 4.4 of the specification: a
  transient provider error (network, timeout, rate limit) is retried with bounded
  exponential backoff, a fixed maximum attempt count and jitter; a permanent error (bad
  request, not found, authorization) is surfaced immediately, with no retry.

  The service answers the attempts of one call in turn: \<open>answer i\<close> is the outcome of
  attempt \<open>i\<close>, \<open>None\<close> for success. The policy gives the number of retries after the
  first attempt, the base delay, the bound of the delay and the jitter drawn for each
  retry. \<open>sdkCreateOrUpdate\<close> returns the outcome of the call and the delays it has
  waited, one between two attempts.
\<close>

record RetryPolicy =
  maxRetries :: nat
  retryDelay :: nat
  maxRetryDelay :: nat
  jitter :: "nat \<Rightarrow> nat"

definition isTransient :: "provider_error option \<Rightarrow> bool" where
  "isTransient outcome =
     (case outcome of
        Some (TransientError m) \<Rightarrow> True
      | Some (PermanentError m) \<Rightarrow> False
      | None \<Rightarrow> False)"

definition backoffDelay :: "RetryPolicy \<Rightarrow> nat \<Rightarrow> nat" where
  "backoffDelay policy i = min (maxRetryDelay policy) (retryDelay policy * 2 ^ i + jitter policy i)"

fun attemptsFrom ::
  "RetryPolicy \<Rightarrow> (nat \<Rightarrow> provider_error option) \<Rightarrow> nat \<Rightarrow> nat
     \<Rightarrow> provider_error option \<times> nat list" where
  "attemptsFrom policy answer i 0 = (answer i, [])"
| "attemptsFrom policy answer i (Suc retriesLeft) =
     (if isTransient (answer i) then
        (case attemptsFrom policy answer (Suc i) retriesLeft of
           (outcome, delays) \<Rightarrow> (outcome, backoffDelay policy i # delays))
      else (answer i, []))"

definition sdkCreateOrUpdate ::
  "RetryPolicy \<Rightarrow> (nat \<Rightarrow> provider_error option) \<Rightarrow> provider_error option \<times> nat list" where
  "sdkCreateOrUpdate policy answer = attemptsFrom policy answer 0 (maxRetries policy)"

text \<open>
  A provider whose \<^verbatim>\<open>BeginCreateOrUpdate\<close> is that client in front of a service: what the
  call returns to the code is the outcome after the retries.
\<close>

type_synonym service = "CreateOrUpdateCall list \<Rightarrow> CreateOrUpdateCall \<Rightarrow> nat \<Rightarrow> provider_error option"

definition withRetry :: "RetryPolicy \<Rightarrow> service \<Rightarrow> Provider \<Rightarrow> Provider" where
  "withRetry policy service P =
     P\<lparr>createOrUpdateError := (\<lambda>h c. fst (sdkCreateOrUpdate policy (service h c)))\<rparr>"

subsection \<open>A concrete scenario\<close>

text \<open>
  The scenario of the specification: hub \<^verbatim>\<open>hub1\<close> with NVA \<^verbatim>\<open>10.0.0.4\<close>, scope
  \<^verbatim>\<open>sub-a\<close> with one network and one subnet, whose route table is \<^verbatim>\<open>rt1\<close>.
\<close>

definition hub1 :: HubVNetConfig where
  "hub1 = \<lparr>VNetID = ''/subscriptions/hub/resourceGroups/hub-rg/providers/Microsoft.Network/virtualNetworks/hub-vnet'',
     ResourceGroup = ''hub-rg'', Hub_Name = ''hub1'', NVANextHop = ''10.0.0.4''\<rparr>"

definition hubNoNVA :: HubVNetConfig where
  "hubNoNVA = hub1\<lparr>NVANextHop := []\<rparr>"

definition subA :: SubscriptionConfig where
  "subA = \<lparr>AllowedCIDRs = [''10.0.0.0/16''], HubName = ''hub1'', RequireHubPeering = False,
     RequireNVARouting = True, SubnetToSubnetDeny = False\<rparr>"

definition allFeatures :: FeaturesConfig where
  "allFeatures = \<lparr>IPAMEnforcement = True, RoutingEnforcement = True, PeeringEnforcement = True,
     ComplianceScanning = True, AutoRemediation = True\<rparr>"

definition exampleConfig :: "HubVNetConfig \<Rightarrow> (string \<times> SubscriptionConfig) list \<Rightarrow> Config" where
  "exampleConfig hub subs = \<lparr>Hubs = [hub], Subscriptions = subs, Features = allFeatures\<rparr>"

definition rt1ID :: string where
  "rt1ID = ''/subscriptions/sub-a/resourceGroups/rg1/providers/Microsoft.Network/routeTables/rt1''"

definition rt1 :: RouteTable where
  "rt1 = \<lparr>RouteTable_ID = Some rt1ID\<rparr>"

definition subnet1 :: Subnet where
  "subnet1 = \<lparr>Subnet_Name = Some ''subnet1'',
     Subnet_Properties = Some \<lparr>Subnet_RouteTable = Some rt1\<rparr>\<rparr>"

definition subnetNoTable :: Subnet where
  "subnetNoTable = \<lparr>Subnet_Name = Some ''subnet0'',
     Subnet_Properties = Some \<lparr>Subnet_RouteTable = None\<rparr>\<rparr>"

definition vnet1 :: VirtualNetwork where
  "vnet1 = \<lparr>VNet_ID = Some ''/subscriptions/sub-a/resourceGroups/rg1/providers/Microsoft.Network/virtualNetworks/vnet1'',
     VNet_Name = Some ''vnet1''\<rparr>"

definition mkRoute :: "string \<Rightarrow> string \<Rightarrow> string option \<Rightarrow> Route" where
  "mkRoute prefix hopType hopAddress =
     \<lparr>Route_Properties = Some \<lparr>AddressPrefix = Some prefix, NextHopType = Some hopType,
        NextHopIPAddress = hopAddress\<rparr>\<rparr>"

definition goodDefault :: Route where
  "goodDefault = mkRoute ''0.0.0.0/0'' ''VirtualAppliance'' (Some ''10.0.0.4'')"

definition internetDefault :: Route where
  "internetDefault = mkRoute ''0.0.0.0/0'' ''Internet'' None"

definition localRoute :: Route where
  "localRoute = mkRoute ''10.0.1.0/24'' ''VnetLocal'' None"

text \<open>
  A provider that makes every client, lists \<open>vnet1\<close> in every subscription, the given
  subnets in every network and the given routes in every route table, and answers a
  create-or-update as \<open>answer\<close> says from the calls made before.
\<close>

definition exampleProvider ::
  "Subnet list \<Rightarrow> Route pages \<Rightarrow> (CreateOrUpdateCall list \<Rightarrow> provider_error option) \<Rightarrow> Provider" where
  "exampleProvider subnets routes answer =
     \<lparr>clientError = (\<lambda>k s. None),
      vnetPages = (\<lambda>h s. [Inr [vnet1]]),
      subnetPages = (\<lambda>h s rg vn. [Inr subnets]),
      routePages = (\<lambda>h s rg rt. routes),
      createOrUpdateError = (\<lambda>h c. answer h)\<rparr>"

definition accepts :: "CreateOrUpdateCall list \<Rightarrow> provider_error option" where
  "accepts h = None"

text \<open>
  The retry policy of the scenario, and three services: one that throttles the first
  attempt of a call and accepts the next, one that throttles every attempt, and one that
  forbids the call.
\<close>

definition examplePolicy :: RetryPolicy where
  "examplePolicy = \<lparr>maxRetries = 3, retryDelay = 800, maxRetryDelay = 60000, jitter = (\<lambda>i. 0)\<rparr>"

definition throttledOnce :: service where
  "throttledOnce h c i = (if i = 0 then Some (TransientError ''429 too many requests'') else None)"

definition alwaysThrottled :: service where
  "alwaysThrottled h c i = Some (TransientError ''429 too many requests'')"

definition forbidden :: service where
  "forbidden h c i = Some (PermanentError ''403 forbidden'')"

definition noIsolation :: isolation where
  "noIsolation subID w = (Ok (), w)"

definition world0 :: "string \<Rightarrow> World" where
  "world0 subID = \<lparr>clientFactory = \<lparr>subscriptionID = subID\<rparr>, calls = [], printed = []\<rparr>"

definition rt1Call :: "string \<Rightarrow> CreateOrUpdateCall" where
  "rt1Call nva =
     \<lparr>subscription = ''sub-a'', resourceGroupName = ''rg1'', routeTableName = ''rt1'',
      routeName = ''DefaultRoute-To-NVA'',
      routeParameters = mkRoute ''0.0.0.0/0'' ''VirtualAppliance'' (Some nva)\<rparr>"

text \<open>The parsers of the scenario accept the two strings the scenario uses.\<close>

definition example_cidr_ok :: "string \<Rightarrow> bool" where
  "example_cidr_ok s = (s = ''10.0.0.0/16'')"

definition example_ip_ok :: "string \<Rightarrow> bool" where
  "example_ip_ok s = (s = ''10.0.0.4'')"

section \<open>Properties\<close>

subsection \<open>The scan\<close>

text \<open>
  What the scan of a listing returns when every page is delivered and every route has its
  properties: a default route exists when some page has one, and it counts as correct
  when the first default route of some page is compliant.
\<close>

lemma scanRoutePage_result:
  "list_all (\<lambda>r. Route_Properties r \<noteq> None) rs \<Longrightarrow>
   scanRoutePage hubCFG rs (ex, co) =
     Ok (ex \<or> firstDefaultRoute rs \<noteq> None, co \<or> pageFirstCompliant hubCFG rs)"
proof (induction rs)
  case Nil
  then show ?case by (simp add: firstDefaultRoute_def pageFirstCompliant_def)
next
  case (Cons r rs)
  then obtain props where p: "Route_Properties r = Some props" by auto
  show ?case
  proof (cases "AddressPrefix props = Some ''0.0.0.0/0''")
    case True
    then show ?thesis using p
      by (auto simp add: firstDefaultRoute_def pageFirstCompliant_def isDefaultRoute_def
          isCompliantRoute_def RouteNextHopTypeVirtualAppliance_def)
  next
    case False
    then show ?thesis using p Cons
      by (simp add: firstDefaultRoute_def pageFirstCompliant_def isDefaultRoute_def)
  qed
qed
lemma scanRoutePages_result:
  "allHaveProperties pgs \<Longrightarrow>
   scanRoutePages hubCFG (map Inr pgs) (ex, co) =
     Ok (ex \<or> (\<exists>pg\<in>set pgs. firstDefaultRoute pg \<noteq> None),
         co \<or> (\<exists>pg\<in>set pgs. pageFirstCompliant hubCFG pg))"
proof (induction pgs arbitrary: ex co)
  case Nil
  then show ?case by simp
next
  case (Cons pg pgs)
  then have a: "list_all (\<lambda>r. Route_Properties r \<noteq> None) pg" and b: "allHaveProperties pgs"
    by (simp_all add: allHaveProperties_def)
  show ?case
    using Cons.IH [OF b] by (simp add: scanRoutePage_result [OF a] disj_ac)
qed
lemma find_append_case:
  "find P (xs @ ys) = (case find P xs of None \<Rightarrow> find P ys | Some x \<Rightarrow> Some x)"
  by (induction xs) auto
lemma firstDefaultRoute_concat:
  "firstDefaultRoute (concat pgs) = Some r \<Longrightarrow>
   \<exists>pg\<in>set pgs. firstDefaultRoute pg = Some r"
proof (induction pgs)
  case Nil
  then show ?case by (simp add: firstDefaultRoute_def)
next
  case (Cons pg pgs)
  then show ?case
    by (cases "find isDefaultRoute pg") (auto simp: firstDefaultRoute_def find_append_case)
qed
lemma firstDefaultRoute_concat_None:
  "firstDefaultRoute (concat pgs) = None \<longleftrightarrow> (\<forall>pg\<in>set pgs. firstDefaultRoute pg = None)"
  by (induction pgs) (auto simp: firstDefaultRoute_def find_append_case split: option.splits)
lemma firstDefaultRoute_None: "firstDefaultRoute rs = None \<longleftrightarrow> (\<forall>r\<in>set rs. \<not> isDefaultRoute r)"
  by (auto simp add: firstDefaultRoute_def find_None_iff)
lemma firstDefaultRoute_first:
  "\<forall>r\<in>set xs. \<not> isDefaultRoute r \<Longrightarrow> isDefaultRoute d \<Longrightarrow>
   firstDefaultRoute (xs @ d # ys) = Some d"
  by (induction xs) (simp_all add: firstDefaultRoute_def)
subsection \<open>The body of the subnet loop\<close>

text \<open>
  For a subnet with a route table, once the routes client is made and the scan has
  returned, the body is the decision of lines 165 to 189.
\<close>

lemma enforceSubnet_with_table:
  assumes "subnetRouteTableID subnet = Some rtID"
    and "clientError P RoutesClient (subscriptionID (clientFactory w)) = None"
    and "scanRoutePages hubCFG (listedRoutes P w rtID) (False, False) = Ok (ex, co)"
  shows "enforceSubnet P hubCFG subnet w =
    (if \<not> ex \<or> \<not> co then
       (if NVANextHop hubCFG = [] then (Err (NoNVAIPs (Hub_Name hubCFG)), w)
        else
          (case createOrUpdateError P (calls w)
                  (defaultRouteCall (subscriptionID (clientFactory w)) (rtResourceGroupOf rtID)
                     (rtNameOf rtID) (NVANextHop hubCFG)) of
             None \<Rightarrow> Ok ()
           | Some err \<Rightarrow>
               (case Subnet_Name subnet of
                  None \<Rightarrow> Panic
                | Some name \<Rightarrow> Err (FailedCreateOrUpdate name err)),
           w\<lparr>calls := calls w @
              [defaultRouteCall (subscriptionID (clientFactory w)) (rtResourceGroupOf rtID)
                 (rtNameOf rtID) (NVANextHop hubCFG)]\<rparr>))
     else (Ok (), w))"
  using assms
  by (auto simp: enforceSubnet_def subnetRouteTableID_def NewRoutesClient_def NewClient_def
      listedRoutes_def rtResourceGroupOf_def rtNameOf_def Let_def
      split: option.splits)
lemma enforceSubnet_at_most_one_call:
  "length (calls (snd (enforceSubnet P hubCFG subnet w))) \<le> Suc (length (calls w))"
  by (simp add: enforceSubnet_def Let_def split: option.splits result.splits prod.splits)
subsection \<open>What the routing enforcement of a scope changes\<close>

text \<open>
  Every level of the routing enforcement leaves the client factory alone and adds only
  create-or-update calls of the default route towards the hub's NVA.
\<close>

lemma routingStep_refl: "routingStep hubCFG w w"
  by (simp add: routingStep_def issued_def)
lemma routingStep_printed: "routingStep hubCFG w (w\<lparr>printed := p\<rparr>)"
  by (simp add: routingStep_def issued_def)
lemma routingStep_call:
  "isDefaultRouteCall hubCFG c \<Longrightarrow> routingStep hubCFG w (w\<lparr>calls := calls w @ [c]\<rparr>)"
  by (simp add: routingStep_def issued_def)
lemma routingStep_trans:
  assumes "routingStep hubCFG w w'" and "routingStep hubCFG w' w''"
  shows "routingStep hubCFG w w''"
proof -
  obtain cs where cs: "calls w' = calls w @ cs"
    using assms(1) by (metis routingStep_def append_take_drop_id)
  obtain ds where ds: "calls w'' = calls w' @ ds"
    using assms(2) by (metis routingStep_def append_take_drop_id)
  have "list_all (isDefaultRouteCall hubCFG) cs" "list_all (isDefaultRouteCall hubCFG) ds"
    using assms cs ds by (simp_all add: routingStep_def issued_def)
  then show ?thesis
    using assms cs ds by (simp add: routingStep_def issued_def)
qed
lemma isDefaultRouteCall_defaultRouteCall:
  "isDefaultRouteCall hubCFG (defaultRouteCall client rg rt (NVANextHop hubCFG))"
  by (simp add: isDefaultRouteCall_def defaultRouteCall_def defaultRouteName_def routeParams_def
      RouteNextHopTypeVirtualAppliance_def)
lemma enforceSubnet_step: "routingStep hubCFG w (snd (enforceSubnet P hubCFG subnet w))"
  by (auto simp: enforceSubnet_def Let_def routingStep_refl routingStep_printed
      routingStep_call isDefaultRouteCall_defaultRouteCall
      split: option.splits result.splits prod.splits)
lemma enforceSubnets_step: "routingStep hubCFG w (snd (enforceSubnets P hubCFG subnets w))"
proof (induction subnets arbitrary: w)
  case Nil
  then show ?case by (simp add: routingStep_refl)
next
  case (Cons subnet rest)
  obtain r w' where s: "enforceSubnet P hubCFG subnet w = (r, w')"
    by (cases "enforceSubnet P hubCFG subnet w")
  then have st: "routingStep hubCFG w w'"
    using enforceSubnet_step [of hubCFG w P subnet] by simp
  show ?case
  proof (cases r)
    case (Ok u)
    then show ?thesis
      using s st Cons.IH [of w'] by (simp add: routingStep_trans)
  qed (use s st in simp_all)
qed
lemma enforceSubnetPages_step: "routingStep hubCFG w (snd (enforceSubnetPages P hubCFG pgs w))"
proof (induction pgs arbitrary: w)
  case Nil
  then show ?case by (simp add: routingStep_refl)
next
  case (Cons pg rest)
  show ?case
  proof (cases pg)
    case (Inl err)
    then show ?thesis by (simp add: routingStep_refl)
  next
    case (Inr subnets)
    obtain r w' where s: "enforceSubnets P hubCFG subnets w = (r, w')"
      by (cases "enforceSubnets P hubCFG subnets w")
    then have st: "routingStep hubCFG w w'"
      using enforceSubnets_step [of hubCFG w P subnets] by simp
    show ?thesis
    proof (cases r)
      case (Ok u)
      then show ?thesis
        using Inr s st Cons.IH [of w'] by (simp add: routingStep_trans)
    qed (use Inr s st in simp_all)
  qed
qed
lemma enforceNVARoutingForVNet_step:
  "routingStep hubCFG w (snd (enforceNVARoutingForVNet P vnetID vnetName hubCFG w))"
  by (simp add: enforceNVARoutingForVNet_def Let_def routingStep_refl enforceSubnetPages_step
      split: result.splits)
lemma enforceVNets_step: "routingStep hubCFG w (snd (enforceVNets P hubCFG vnets w))"
proof (induction vnets arbitrary: w)
  case Nil
  then show ?case by (simp add: routingStep_refl)
next
  case (Cons vnet rest)
  show ?case
  proof (cases "VNet_ID vnet")
    case None
    then show ?thesis by (simp add: routingStep_refl)
  next
    case (Some vnetID)
    note i = this
    show ?thesis
    proof (cases "VNet_Name vnet")
      case None
      then show ?thesis using i by (simp add: routingStep_refl)
    next
      case (Some vnetName)
      obtain r w' where s: "enforceNVARoutingForVNet P vnetID vnetName hubCFG w = (r, w')"
        by (cases "enforceNVARoutingForVNet P vnetID vnetName hubCFG w")
      then have st: "routingStep hubCFG w w'"
        using enforceNVARoutingForVNet_step [of hubCFG w P vnetID vnetName] by simp
      show ?thesis
      proof (cases r)
        case (Ok u)
        then show ?thesis
          using i Some s st Cons.IH [of w'] by (simp add: routingStep_trans)
      qed (use i Some s st in simp_all)
    qed
  qed
qed
lemma enforceVNetPages_step: "routingStep hubCFG w (snd (enforceVNetPages P hubCFG pgs w))"
proof (induction pgs arbitrary: w)
  case Nil
  then show ?case by (simp add: routingStep_refl)
next
  case (Cons pg rest)
  show ?case
  proof (cases pg)
    case (Inl err)
    then show ?thesis by (simp add: routingStep_refl)
  next
    case (Inr vnets)
    obtain r w' where s: "enforceVNets P hubCFG vnets w = (r, w')"
      by (cases "enforceVNets P hubCFG vnets w")
    then have st: "routingStep hubCFG w w'"
      using enforceVNets_step [of hubCFG w P vnets] by simp
    show ?thesis
    proof (cases r)
      case (Ok u)
      then show ?thesis
        using Inr s st Cons.IH [of w'] by (simp add: routingStep_trans)
    qed (use Inr s st in simp_all)
  qed
qed
lemma enforceNVARouting_step:
  "routingStep hubCFG w (snd (enforceNVARouting P subID hubCFG w))"
  by (simp add: enforceNVARouting_def routingStep_refl enforceVNetPages_step split: result.splits)
subsection \<open>The loop over the subscriptions\<close>

lemma enforceSubscriptions_stops:
  "enforceSubscriptions P isolation config before w = (Ok (), w1) \<Longrightarrow>
   enforceSubscription P isolation config entry w1 = (Err e, w2) \<Longrightarrow>
   enforceSubscriptions P isolation config (before @ entry # after) w = (Err e, w2)"
proof (induction before arbitrary: w)
  case Nil
  then show ?case by simp
next
  case (Cons b before)
  obtain r w' where s: "enforceSubscription P isolation config b w = (r, w')"
    by (cases "enforceSubscription P isolation config b w")
  show ?case
  proof (cases r)
    case (Ok u)
    then show ?thesis using s Cons by simp
  qed (use s Cons.prems in simp_all)
qed
lemma enforceSubscription_Subscriptions:
  "enforceSubscription P isolation (config\<lparr>Subscriptions := subs\<rparr>) entry w
   = enforceSubscription P isolation config entry w"
  by (simp add: enforceSubscription_def Let_def)
lemma enforceSubscriptions_Subscriptions:
  "enforceSubscriptions P isolation (config\<lparr>Subscriptions := subs\<rparr>) entries w
   = enforceSubscriptions P isolation config entries w"
  by (induction entries arbitrary: w)
     (simp_all add: enforceSubscription_Subscriptions split: prod.splits result.splits)
lemma wrapErr_snd: "snd (wrapErr f rw) = snd rw"
  by (cases rw) (simp add: wrapErr_def split: result.splits)
lemma wrapErr_Ok: "wrapErr f rw = (Ok u, w') \<Longrightarrow> rw = (Ok u, w')"
  by (cases rw) (simp add: wrapErr_def split: result.splits)
lemma enforceSubscription_factory:
  assumes "\<forall>s v. clientFactory (snd (isolation s v)) = clientFactory v"
  shows "subscriptionID (clientFactory (snd (enforceSubscription P isolation config (subID, subCFG) w)))
         = subID"
proof -
  let ?w1 = "w\<lparr>clientFactory := SetSubscriptionID subID (clientFactory w)\<rparr>"
  have w1: "subscriptionID (clientFactory ?w1) = subID"
    by (simp add: SetSubscriptionID_def)
  have r: "\<And>hubCFG. clientFactory (snd (enforceNVARouting P subID hubCFG ?w1)) = clientFactory ?w1"
    using enforceNVARouting_step [of _ ?w1 P subID] by (simp add: routingStep_def)
  show ?thesis
  proof (cases "RoutingEnforcement (Features config)")
    case False
    then show ?thesis using w1 by (simp add: enforceSubscription_def)
  next
    case True
    show ?thesis
    proof (cases "find (\<lambda>hub. Hub_Name hub = HubName subCFG) (Hubs config)")
      case None
      then show ?thesis using True w1 by (simp add: enforceSubscription_def)
    next
      case (Some hubCFG)
      define rw where "rw = (if RequireNVARouting subCFG
          then wrapErr (FailedNVARouting subID) (enforceNVARouting P subID hubCFG ?w1)
          else (Ok (), ?w1))"
      have f: "clientFactory (snd rw) = clientFactory ?w1"
        using r [of hubCFG] by (simp add: rw_def wrapErr_snd)
      obtain res w2 where rw: "rw = (res, w2)" by (cases rw)
      then have w2: "subscriptionID (clientFactory w2) = subID"
        using f w1 by simp
      have e: "enforceSubscription P isolation config (subID, subCFG) w =
        (case rw of
           (Ok u, w2) \<Rightarrow>
             (if SubnetToSubnetDeny subCFG
              then wrapErr (FailedSubnetIsolation subID) (isolation subID w2)
              else (Ok (), w2))
         | (Err e, w2) \<Rightarrow> (Err e, w2)
         | (Panic, w2) \<Rightarrow> (Panic, w2))"
        using True Some by (simp add: enforceSubscription_def rw_def Let_def)
      show ?thesis
        using w2 assms by (cases res) (simp_all add: e rw wrapErr_snd)
    qed
  qed
qed
lemma enforceSubscriptions_factory:
  assumes "\<forall>s v. clientFactory (snd (isolation s v)) = clientFactory v"
  shows "entries \<noteq> [] \<Longrightarrow> enforceSubscriptions P isolation config entries w = (Ok (), w') \<Longrightarrow>
         subscriptionID (clientFactory w') = fst (last entries)"
proof (induction entries arbitrary: w)
  case Nil
  then show ?case by simp
next
  case (Cons entry rest)
  obtain r w1 where s: "enforceSubscription P isolation config entry w = (r, w1)"
    by (cases "enforceSubscription P isolation config entry w")
  have f: "subscriptionID (clientFactory w1) = fst entry"
    using enforceSubscription_factory [OF assms, of P config "fst entry" "snd entry" w] s by simp
  show ?case
  proof (cases r)
    case (Ok u)
    show ?thesis
    proof (cases rest)
      case Nil
      then show ?thesis using Cons.prems s Ok f by simp
    next
      case (Cons a list)
      then show ?thesis using Cons.prems s Ok Cons.IH [of w1] by simp
    qed
  qed (use s Cons.prems in simp_all)
qed
subsection \<open>Validation\<close>

text \<open>\<^verbatim>\<open>Validate\<close> succeeds exactly when its three checks pass; no check reads a hub name.\<close>

lemma validateCIDRs_None: "validateCIDRs cidr_ok cs = None \<longleftrightarrow> (\<forall>cidr\<in>set cs. cidr_ok cidr)"
  by (induction cs) auto
lemma validateSubscriptions_None:
  "validateSubscriptions cidr_ok subs = None \<longleftrightarrow>
   (\<forall>entry\<in>set subs. \<forall>cidr\<in>set (AllowedCIDRs (snd entry)). cidr_ok cidr)"
  by (induction subs) (auto simp: validateCIDRs_None split: option.splits)
lemma validateHubs_None:
  "validateHubs ip_ok hubs = None \<longleftrightarrow>
   (\<forall>hub\<in>set hubs. NVANextHop hub \<noteq> [] \<longrightarrow> ip_ok (NVANextHop hub))"
  by (induction hubs) auto
lemma Validate_None:
  "Validate cidr_ok ip_ok c = None \<longleftrightarrow>
   (\<forall>entry\<in>set (Subscriptions c). \<forall>cidr\<in>set (AllowedCIDRs (snd entry)). cidr_ok cidr)
   \<and> Hubs c \<noteq> []
   \<and> (\<forall>hub\<in>set (Hubs c). NVANextHop hub \<noteq> [] \<longrightarrow> ip_ok (NVANextHop hub))"
proof (cases "validateSubscriptions cidr_ok (Subscriptions c)")
  case None
  then show ?thesis
    using validateSubscriptions_None [of cidr_ok "Subscriptions c"]
    by (simp add: Validate_def validateHubs_None)
next
  case (Some e)
  then show ?thesis
    using validateSubscriptions_None [of cidr_ok "Subscriptions c"]
    by (simp add: Validate_def)
qed
subsection \<open>Applying create-or-update calls to a topology\<close>

lemma applyCalls_map_add:
  "applyCalls t cs =
   t ++ map_of (rev (map (\<lambda>c. ((subscription c, resourceGroupName c, routeTableName c, routeName c),
                                  routeParameters c)) cs))"
proof (induction cs arbitrary: t)
  case Nil
  then show ?case by (simp add: applyCalls_def)
next
  case (Cons c cs)
  have "applyCalls t (c # cs) = applyCalls (applyCall t c) cs"
    by (simp add: applyCalls_def)
  then show ?case
    by (simp add: Cons.IH applyCall_def map_add_upd_left [symmetric] del: map_add_upd_left)
       (simp add: map_add_def fun_eq_iff split: option.splits)
qed
lemma applyCalls_twice: "applyCalls (applyCalls t cs) cs = applyCalls t cs"
proof -
  have "\<And>m. (t ++ m) ++ m = t ++ (m::Topology)"
    by (simp add: map_add_def fun_eq_iff split: option.splits)
  then show ?thesis
    by (simp add: applyCalls_map_add [of _ cs])
qed
subsection \<open>Facts of the scenario\<close>

lemma rt1ID_parts: "rtResourceGroupOf rt1ID = ''rg1'' \<and> rtNameOf rt1ID = ''rt1''"
  by (simp add: rtResourceGroupOf_def rtNameOf_def rt1ID_def extractResourceIDParts_def lookup_def)
lemma vnet1_resourceGroup:
  "lookup (extractResourceIDParts
     ''/subscriptions/sub-a/resourceGroups/rg1/providers/Microsoft.Network/virtualNetworks/vnet1'')
     ''resourceGroups'' = ''rg1''"
  by (simp add: extractResourceIDParts_def lookup_def)
lemma subnet1_table: "subnetRouteTableID subnet1 = Some rt1ID"
  by (simp add: subnetRouteTableID_def subnet1_def rt1_def)
lemma exampleProvider_client:
  "clientError (exampleProvider subnets routes answer) k s = None"
  by (simp add: exampleProvider_def)
lemma exampleProvider_routes: "listedRoutes (exampleProvider subnets routes answer) w rtID = routes"
  by (simp add: exampleProvider_def listedRoutes_def)
lemma exampleProvider_answer:
  "createOrUpdateError (exampleProvider subnets routes answer) h c = answer h"
  by (simp add: exampleProvider_def)
lemma rt1Call_eq: "defaultRouteCall ''sub-a'' ''rg1'' ''rt1'' nva = rt1Call nva"
  by (simp add: defaultRouteCall_def rt1Call_def defaultRouteName_def routeParams_def mkRoute_def
      RouteNextHopTypeVirtualAppliance_def)
lemma example_routes_props:
  "allHaveProperties [[internetDefault]]"
  "allHaveProperties [[internetDefault, goodDefault]]"
  "allHaveProperties [[localRoute, goodDefault, internetDefault]]"
  "allHaveProperties [[localRoute], [goodDefault, internetDefault], [localRoute]]"
  by (simp_all add: allHaveProperties_def internetDefault_def goodDefault_def localRoute_def mkRoute_def)
lemma example_routes_kind:
  "isDefaultRoute internetDefault" "isDefaultRoute goodDefault" "\<not> isDefaultRoute localRoute"
  "isCompliantRoute hub1 goodDefault" "\<not> isCompliantRoute hub1 internetDefault"
  by (simp_all add: isDefaultRoute_def isCompliantRoute_def internetDefault_def goodDefault_def
      localRoute_def mkRoute_def hub1_def)
lemma example_enforceSubnetPages:
  "enforceSubnetPages P hubCFG [Inr subnets] w = enforceSubnets P hubCFG subnets w"
proof (cases "enforceSubnets P hubCFG subnets w")
  case (Pair r w')
  then show ?thesis by (cases r) simp_all
qed
lemma example_enforceNVARoutingForVNet:
  "enforceNVARoutingForVNet (exampleProvider subnets routes answer)
     ''/subscriptions/sub-a/resourceGroups/rg1/providers/Microsoft.Network/virtualNetworks/vnet1''
     ''vnet1'' hubCFG w
   = enforceSubnets (exampleProvider subnets routes answer) hubCFG subnets w"
proof -
  have "subnetPages (exampleProvider subnets routes answer) (calls w) (subscriptionID (clientFactory w))
      ''rg1'' ''vnet1'' = [Inr subnets]"
    by (simp add: exampleProvider_def)
  then show ?thesis
    by (simp add: enforceNVARoutingForVNet_def vnet1_resourceGroup NewSubnetsClient_def
        NewClient_def exampleProvider_client example_enforceSubnetPages
        del: enforceSubnetPages.simps)
qed
lemma example_enforceNVARouting:
  "enforceNVARouting (exampleProvider subnets routes answer) subID hubCFG w
   = enforceSubnets (exampleProvider subnets routes answer) hubCFG subnets w"
proof -
  let ?P = "exampleProvider subnets routes answer"
  have v: "enforceVNets ?P hubCFG [vnet1] w = enforceSubnets ?P hubCFG subnets w"
  proof (cases "enforceSubnets ?P hubCFG subnets w")
    case (Pair r w')
    then show ?thesis
      by (cases r) (simp_all add: vnet1_def example_enforceNVARoutingForVNet)
  qed
  have p: "enforceVNetPages ?P hubCFG [Inr [vnet1]] w = enforceSubnets ?P hubCFG subnets w"
  proof (cases "enforceSubnets ?P hubCFG subnets w")
    case (Pair r w')
    then show ?thesis using v by (cases r) simp_all
  qed
  have "vnetPages ?P (calls w) (subscriptionID (clientFactory w)) = [Inr [vnet1]]"
    by (simp add: exampleProvider_def)
  then show ?thesis
    by (simp add: enforceNVARouting_def NewVirtualNeworksClient_def NewClient_def
        exampleProvider_client p del: enforceVNetPages.simps)
qed
lemma example_subnet1_call:
  "enforceSubnets (exampleProvider [subnet1] [Inr [internetDefault]] accepts) hub1 [subnet1]
     \<lparr>clientFactory = \<lparr>subscriptionID = ''sub-a''\<rparr>, calls = [], printed = []\<rparr>
   = (Ok (), \<lparr>clientFactory = \<lparr>subscriptionID = ''sub-a''\<rparr>, calls = [rt1Call ''10.0.0.4''], printed = []\<rparr>)"
proof -
  let ?P = "exampleProvider [subnet1] [Inr [internetDefault]] accepts"
  let ?w = "\<lparr>clientFactory = \<lparr>subscriptionID = ''sub-a''\<rparr>, calls = [], printed = []\<rparr>"
  have scan: "scanRoutePages hub1 (listedRoutes ?P ?w rt1ID) (False, False) = Ok (True, False)"
    by (simp add: exampleProvider_routes internetDefault_def mkRoute_def
        RouteNextHopTypeVirtualAppliance_def)
  have c: "clientError ?P RoutesClient (subscriptionID (clientFactory ?w)) = None"
    by (rule exampleProvider_client)
  have n: "NVANextHop hub1 = ''10.0.0.4''" by (simp add: hub1_def)
  show ?thesis
    using enforceSubnet_with_table [OF subnet1_table c scan]
    by (simp add: n rt1ID_parts rt1Call_eq exampleProvider_answer accepts_def)
qed
lemma example_subnet1_step:
  assumes "subscriptionID (clientFactory w) = ''sub-a''"
  shows "enforceSubnets (exampleProvider [subnet1] [Inr [internetDefault]] accepts) hub1 [subnet1] w
         = (Ok (), w\<lparr>calls := calls w @ [rt1Call ''10.0.0.4'']\<rparr>)"
proof -
  let ?P = "exampleProvider [subnet1] [Inr [internetDefault]] accepts"
  have scan: "scanRoutePages hub1 (listedRoutes ?P w rt1ID) (False, False) = Ok (True, False)"
    by (simp add: exampleProvider_routes internetDefault_def mkRoute_def
        RouteNextHopTypeVirtualAppliance_def)
  have c: "clientError ?P RoutesClient (subscriptionID (clientFactory w)) = None"
    by (rule exampleProvider_client)
  have n: "NVANextHop hub1 = ''10.0.0.4''" by (simp add: hub1_def)
  show ?thesis
    using enforceSubnet_with_table [OF subnet1_table c scan]
    by (simp add: n assms rt1ID_parts rt1Call_eq exampleProvider_answer accepts_def)
qed
lemma example_scope_subA:
  "enforceSubscription (exampleProvider [subnet1] [Inr [internetDefault]] accepts) noIsolation
     (exampleConfig hub1 subs) (''sub-a'', subA) w
   = (Ok (), w\<lparr>clientFactory := \<lparr>subscriptionID = ''sub-a''\<rparr>, calls := calls w @ [rt1Call ''10.0.0.4'']\<rparr>)"
proof -
  let ?w1 = "w\<lparr>clientFactory := SetSubscriptionID ''sub-a'' (clientFactory w)\<rparr>"
  have f: "find (\<lambda>hub. Hub_Name hub = HubName subA) (Hubs (exampleConfig hub1 subs)) = Some hub1"
    by (simp add: exampleConfig_def subA_def hub1_def)
  have r: "RoutingEnforcement (Features (exampleConfig hub1 subs))"
    "RequireNVARouting subA" "\<not> SubnetToSubnetDeny subA"
    by (simp_all add: exampleConfig_def allFeatures_def subA_def)
  have s: "subscriptionID (clientFactory ?w1) = ''sub-a''"
    by (simp add: SetSubscriptionID_def)
  have e: "enforceNVARouting (exampleProvider [subnet1] [Inr [internetDefault]] accepts) ''sub-a'' hub1 ?w1
      = (Ok (), ?w1\<lparr>calls := calls ?w1 @ [rt1Call ''10.0.0.4'']\<rparr>)"
    by (simp only: example_enforceNVARouting example_subnet1_step [OF s])
  have "enforceSubscription (exampleProvider [subnet1] [Inr [internetDefault]] accepts) noIsolation
     (exampleConfig hub1 subs) (''sub-a'', subA) w
     = (Ok (), ?w1\<lparr>calls := calls ?w1 @ [rt1Call ''10.0.0.4'']\<rparr>)"
    by (simp add: enforceSubscription_def Let_def f r e wrapErr_def)
  then show ?thesis
    by (simp add: SetSubscriptionID_def)
qed
lemma example_scope_unresolved:
  "enforceSubscription P isolation (exampleConfig hub1 subs) (''sub-x'', subA\<lparr>HubName := ''nohub''\<rparr>) w
   = (Err (HubNotFound ''nohub'' ''sub-x''), w\<lparr>clientFactory := \<lparr>subscriptionID = ''sub-x''\<rparr>\<rparr>)"
  by (simp add: enforceSubscription_def Let_def exampleConfig_def allFeatures_def hub1_def
      SetSubscriptionID_def)
subsection \<open>C1: the default route is created when it is missing or points elsewhere\<close>

text \<open>
  Claim C1, as amended. A subnet has a route table whose routes are listed without error,
  and the hub's NVA address is not empty. When the listing holds no route with the prefix
  \<^verbatim>\<open>0.0.0.0/0\<close>, or its first such route is not compliant and no page of the listing
  has a compliant route as its first \<^verbatim>\<open>0.0.0.0/0\<close> route, the body of the subnet loop
  issues exactly one create-or-update call: for the subnet's route table, with the route
  name \<^verbatim>\<open>DefaultRoute-To-NVA\<close>, the prefix \<^verbatim>\<open>0.0.0.0/0\<close>, the next-hop type
  virtual appliance and the hub's NVA address.
\<close>

theorem C1_default_route_created:
  assumes "subnetRouteTableID subnet = Some rtID"
    and "clientError P RoutesClient (subscriptionID (clientFactory w)) = None"
    and "listedRoutes P w rtID = map Inr pgs"
    and "allHaveProperties pgs"
    and "NVANextHop hubCFG \<noteq> []"
    and "firstDefaultRoute (concat pgs) = None
         \<or> (\<exists>r. firstDefaultRoute (concat pgs) = Some r \<and> \<not> isCompliantRoute hubCFG r
                \<and> (\<forall>pg\<in>set pgs. \<not> pageFirstCompliant hubCFG pg))"
  shows "calls (snd (enforceSubnet P hubCFG subnet w)) =
         calls w @
           [\<lparr>subscription = subscriptionID (clientFactory w),
             resourceGroupName = rtResourceGroupOf rtID,
             routeTableName = rtNameOf rtID,
             routeName = ''DefaultRoute-To-NVA'',
             routeParameters =
               \<lparr>Route_Properties = Some \<lparr>AddressPrefix = Some ''0.0.0.0/0'',
                  NextHopType = Some ''VirtualAppliance'',
                  NextHopIPAddress = Some (NVANextHop hubCFG)\<rparr>\<rparr>\<rparr>]"
proof -
  have none: "\<forall>pg\<in>set pgs. \<not> pageFirstCompliant hubCFG pg"
    using assms(6)
    by (auto simp: firstDefaultRoute_concat_None pageFirstCompliant_def)
  have scan: "scanRoutePages hubCFG (listedRoutes P w rtID) (False, False) =
      Ok (\<exists>pg\<in>set pgs. firstDefaultRoute pg \<noteq> None, False)"
    using none by (simp add: assms(3) scanRoutePages_result [OF assms(4)])
  show ?thesis
    using assms(5)
    by (simp add: enforceSubnet_with_table [OF assms(1) assms(2) scan] defaultRouteCall_def
        defaultRouteName_def routeParams_def RouteNextHopTypeVirtualAppliance_def)
qed
text \<open>The subnet of the scenario, whose only route is a default route to the internet.\<close>

theorem C1_default_route_created_witness:
  "calls (snd (enforceSubnet (exampleProvider [subnet1] [Inr [internetDefault]] accepts) hub1
                 subnet1 (world0 ''sub-a''))) = [rt1Call ''10.0.0.4'']"
proof -
  have h: "firstDefaultRoute (concat [[internetDefault]]) = None
      \<or> (\<exists>r. firstDefaultRoute (concat [[internetDefault]]) = Some r \<and> \<not> isCompliantRoute hub1 r
            \<and> (\<forall>pg\<in>set [[internetDefault]]. \<not> pageFirstCompliant hub1 pg))"
    by (simp add: firstDefaultRoute_def pageFirstCompliant_def example_routes_kind)
  have n: "NVANextHop hub1 \<noteq> []" by (simp add: hub1_def)
  have l: "listedRoutes (exampleProvider [subnet1] [Inr [internetDefault]] accepts) (world0 ''sub-a'') rt1ID
      = map Inr [[internetDefault]]"
    by (simp add: exampleProvider_routes)
  show ?thesis
    using C1_default_route_created
      [OF subnet1_table exampleProvider_client l example_routes_props(1) n h]
    by (simp add: rt1ID_parts world0_def rt1Call_def mkRoute_def hub1_def)
qed
text \<open>
  The claim as stated fails for a hub without an NVA address: the route table is empty, and
  the code returns an error and issues no call (the guard of line 166).
\<close>

theorem C1_empty_nva_counterexample:
  "firstDefaultRoute (concat [[]]) = None \<and>
   enforceSubnet (exampleProvider [subnet1] [Inr []] accepts) hubNoNVA subnet1 (world0 ''sub-a'')
     = (Err (NoNVAIPs ''hub1''), world0 ''sub-a'')"
proof -
  have scan: "scanRoutePages hubNoNVA
      (listedRoutes (exampleProvider [subnet1] [Inr []] accepts) (world0 ''sub-a'') rt1ID) (False, False)
      = Ok (False, False)"
    by (simp add: exampleProvider_routes)
  have "NVANextHop hubNoNVA = []" "Hub_Name hubNoNVA = ''hub1''"
    by (simp_all add: hubNoNVA_def hub1_def)
  then show ?thesis
    by (simp add: enforceSubnet_with_table [OF subnet1_table exampleProvider_client scan]
        firstDefaultRoute_def)
qed
subsection \<open>C2: a compliant default route needs no call\<close>

text \<open>
  Claim C2, as amended. A subnet has a route table whose routes are listed without error.
  When the first route of the listing with the prefix \<^verbatim>\<open>0.0.0.0/0\<close> is compliant (next
  hop a virtual appliance at the hub's NVA address), the body of the subnet loop issues no
  call, prints nothing and returns no error: the state is unchanged and the loop goes on.
\<close>

theorem C2_compliant_first_default_route_no_call:
  assumes "subnetRouteTableID subnet = Some rtID"
    and "clientError P RoutesClient (subscriptionID (clientFactory w)) = None"
    and "listedRoutes P w rtID = map Inr pgs"
    and "allHaveProperties pgs"
    and "firstDefaultRoute (concat pgs) = Some r"
    and "isCompliantRoute hubCFG r"
  shows "enforceSubnet P hubCFG subnet w = (Ok (), w)"
proof -
  obtain pg where pg: "pg \<in> set pgs" "firstDefaultRoute pg = Some r"
    using firstDefaultRoute_concat [OF assms(5)] by blast
  then have c: "\<exists>pg\<in>set pgs. pageFirstCompliant hubCFG pg"
    using assms(6) by (intro bexI [of _ pg]) (simp_all add: pageFirstCompliant_def)
  have e: "\<exists>pg\<in>set pgs. firstDefaultRoute pg \<noteq> None"
    using pg by auto
  have scan: "scanRoutePages hubCFG (listedRoutes P w rtID) (False, False) = Ok (True, True)"
    using c e by (simp add: assms(3) scanRoutePages_result [OF assms(4)])
  show ?thesis
    by (simp add: enforceSubnet_with_table [OF assms(1) assms(2) scan])
qed
theorem C2_compliant_first_default_route_witness:
  "enforceSubnet (exampleProvider [subnet1] [Inr [localRoute, goodDefault, internetDefault]] accepts)
     hub1 subnet1 (world0 ''sub-a'') = (Ok (), world0 ''sub-a'')"
proof -
  have f: "firstDefaultRoute (concat [[localRoute, goodDefault, internetDefault]]) = Some goodDefault"
    by (simp add: firstDefaultRoute_def example_routes_kind)
  have l: "listedRoutes (exampleProvider [subnet1] [Inr [localRoute, goodDefault, internetDefault]] accepts)
      (world0 ''sub-a'') rt1ID = map Inr [[localRoute, goodDefault, internetDefault]]"
    by (simp add: exampleProvider_routes)
  show ?thesis
    by (rule C2_compliant_first_default_route_no_call
        [OF subnet1_table exampleProvider_client l example_routes_props(3) f example_routes_kind(4)])
qed
text \<open>
  The claim as stated asks only that the table contains a compliant default route. A table
  that lists a default route to the internet before the compliant one contains it, and the
  code issues a call: the scan stops at the first default route of the page.
\<close>

theorem C2_compliant_route_behind_other_counterexample:
  "goodDefault \<in> set [internetDefault, goodDefault] \<and> isCompliantRoute hub1 goodDefault \<and>
   enforceSubnet (exampleProvider [subnet1] [Inr [internetDefault, goodDefault]] accepts)
     hub1 subnet1 (world0 ''sub-a'')
     = (Ok (), (world0 ''sub-a'')\<lparr>calls := [rt1Call ''10.0.0.4'']\<rparr>)"
proof -
  have scan: "scanRoutePages hub1
      (listedRoutes (exampleProvider [subnet1] [Inr [internetDefault, goodDefault]] accepts)
         (world0 ''sub-a'') rt1ID) (False, False) = Ok (True, False)"
    by (simp add: exampleProvider_routes scanRoutePages_result [of "[[internetDefault, goodDefault]]", simplified]
        example_routes_props firstDefaultRoute_def pageFirstCompliant_def example_routes_kind)
  have n: "NVANextHop hub1 = ''10.0.0.4''" by (simp add: hub1_def)
  have w: "subscriptionID (clientFactory (world0 ''sub-a'')) = ''sub-a''" "calls (world0 ''sub-a'') = []"
    by (simp_all add: world0_def)
  show ?thesis
    by (simp add: enforceSubnet_with_table [OF subnet1_table exampleProvider_client scan]
        example_routes_kind n w rt1ID_parts rt1Call_eq exampleProvider_answer accepts_def)
qed
subsection \<open>C3: an unresolved hub reference\<close>

text \<open>
  Claim C3, as amended. A configuration that is valid in all that \<^verbatim>\<open>Validate\<close> checks
  (CIDRs, at least one hub, NVA addresses) and in which a scope names a hub that is not
  defined passes \<^verbatim>\<open>Validate\<close>. The reference is looked up by \<^verbatim>\<open>EnforceAll\<close>, in the
  body of its loop, and only when routing enforcement is enabled: the body then returns
  the error "hub not found for subscription", after it has stored the scope in the client
  factory; with the feature disabled the body succeeds. When the scopes that come before
  in the iteration have been reconciled without error, \<^verbatim>\<open>EnforceAll\<close> returns that error.
\<close>

theorem C3_unresolved_hub_detected_by_EnforceAll:
  assumes "Subscriptions c = before @ (subID, subCFG) # after"
    and "\<forall>hub\<in>set (Hubs c). Hub_Name hub \<noteq> HubName subCFG"
    and "Hubs c \<noteq> []"
    and "\<forall>entry\<in>set (Subscriptions c). \<forall>cidr\<in>set (AllowedCIDRs (snd entry)). cidr_ok cidr"
    and "\<forall>hub\<in>set (Hubs c). NVANextHop hub \<noteq> [] \<longrightarrow> ip_ok (NVANextHop hub)"
    and "enforceSubscriptions P isolation c before w = (Ok (), w1)"
  shows "Validate cidr_ok ip_ok c = None
         \<and> enforceSubscription P isolation c (subID, subCFG) w1 =
             (if RoutingEnforcement (Features c)
              then (Err (HubNotFound (HubName subCFG) subID),
                    w1\<lparr>clientFactory := SetSubscriptionID subID (clientFactory w1)\<rparr>)
              else (Ok (), w1\<lparr>clientFactory := SetSubscriptionID subID (clientFactory w1)\<rparr>))
         \<and> (RoutingEnforcement (Features c) \<longrightarrow>
              EnforceAll P isolation c w =
                (Err (HubNotFound (HubName subCFG) subID),
                 w1\<lparr>clientFactory := SetSubscriptionID subID (clientFactory w1)\<rparr>))"
proof -
  have v: "Validate cidr_ok ip_ok c = None"
    using assms(3,4,5) by (simp add: Validate_None)
  have f: "find (\<lambda>hub. Hub_Name hub = HubName subCFG) (Hubs c) = None"
    using assms(2) by (simp add: find_None_iff)
  have s: "enforceSubscription P isolation c (subID, subCFG) w1 =
             (if RoutingEnforcement (Features c)
              then (Err (HubNotFound (HubName subCFG) subID),
                    w1\<lparr>clientFactory := SetSubscriptionID subID (clientFactory w1)\<rparr>)
              else (Ok (), w1\<lparr>clientFactory := SetSubscriptionID subID (clientFactory w1)\<rparr>))"
    by (simp add: enforceSubscription_def f)
  have "EnforceAll P isolation c w =
                (Err (HubNotFound (HubName subCFG) subID),
                 w1\<lparr>clientFactory := SetSubscriptionID subID (clientFactory w1)\<rparr>)"
    if "RoutingEnforcement (Features c)"
    using enforceSubscriptions_stops [OF assms(6), of "(subID, subCFG)" _ _ after] s that
    by (simp add: EnforceAll_def assms(1))
  then show ?thesis using v s by blast
qed
text \<open>
  Scope \<^verbatim>\<open>sub-a\<close> is reconciled (one call), then scope \<^verbatim>\<open>sub-x\<close> names the hub
  \<^verbatim>\<open>nohub\<close>.
\<close>

theorem C3_unresolved_hub_witness:
  "Validate example_cidr_ok example_ip_ok
     (exampleConfig hub1 [(''sub-a'', subA), (''sub-x'', subA\<lparr>HubName := ''nohub''\<rparr>)]) = None
   \<and> EnforceAll (exampleProvider [subnet1] [Inr [internetDefault]] accepts) noIsolation
       (exampleConfig hub1 [(''sub-a'', subA), (''sub-x'', subA\<lparr>HubName := ''nohub''\<rparr>)])
       (world0 ''sub-0'')
     = (Err (HubNotFound ''nohub'' ''sub-x''),
        \<lparr>clientFactory = \<lparr>subscriptionID = ''sub-x''\<rparr>, calls = [rt1Call ''10.0.0.4''], printed = []\<rparr>)"
proof -
  let ?P = "exampleProvider [subnet1] [Inr [internetDefault]] accepts"
  let ?c = "exampleConfig hub1 [(''sub-a'', subA), (''sub-x'', subA\<lparr>HubName := ''nohub''\<rparr>)]"
  let ?w1 = "\<lparr>clientFactory = \<lparr>subscriptionID = ''sub-a''\<rparr>, calls = [rt1Call ''10.0.0.4''], printed = []\<rparr>"
  have s: "Subscriptions ?c = [(''sub-a'', subA)] @ (''sub-x'', subA\<lparr>HubName := ''nohub''\<rparr>) # []"
    by (simp add: exampleConfig_def)
  have h: "\<forall>hub\<in>set (Hubs ?c). Hub_Name hub \<noteq> HubName (subA\<lparr>HubName := ''nohub''\<rparr>)"
    by (simp add: exampleConfig_def hub1_def)
  have n: "Hubs ?c \<noteq> []" by (simp add: exampleConfig_def)
  have cs: "\<forall>entry\<in>set (Subscriptions ?c). \<forall>cidr\<in>set (AllowedCIDRs (snd entry)). example_cidr_ok cidr"
    by (simp add: exampleConfig_def subA_def example_cidr_ok_def)
  have ips: "\<forall>hub\<in>set (Hubs ?c). NVANextHop hub \<noteq> [] \<longrightarrow> example_ip_ok (NVANextHop hub)"
    by (simp add: exampleConfig_def hub1_def example_ip_ok_def)
  have b: "enforceSubscriptions ?P noIsolation ?c [(''sub-a'', subA)] (world0 ''sub-0'') = (Ok (), ?w1)"
    by (simp add: example_scope_subA world0_def)
  have r: "RoutingEnforcement (Features ?c)" by (simp add: exampleConfig_def allFeatures_def)
  show ?thesis
    using C3_unresolved_hub_detected_by_EnforceAll [OF s h n cs ips b] r
    by (simp add: SetSubscriptionID_def)
qed
text \<open>
  The claim as stated fails: the configuration names no hub \<^verbatim>\<open>nohub\<close>, validation
  accepts it, and the error comes from the enforcement of the scope.
\<close>

theorem C3_unresolved_hub_passes_validation_counterexample:
  "list_all (\<lambda>hub. Hub_Name hub \<noteq> ''nohub'')
     (Hubs (exampleConfig hub1 [(''sub-x'', subA\<lparr>HubName := ''nohub''\<rparr>)]))
   \<and> Validate example_cidr_ok example_ip_ok
       (exampleConfig hub1 [(''sub-x'', subA\<lparr>HubName := ''nohub''\<rparr>)]) = None
   \<and> EnforceAll (exampleProvider [subnet1] [Inr [internetDefault]] accepts) noIsolation
       (exampleConfig hub1 [(''sub-x'', subA\<lparr>HubName := ''nohub''\<rparr>)])
       \<lparr>clientFactory = \<lparr>subscriptionID = ''sub-0''\<rparr>, calls = [], printed = []\<rparr>
     = (Err (HubNotFound ''nohub'' ''sub-x''),
        \<lparr>clientFactory = \<lparr>subscriptionID = ''sub-x''\<rparr>, calls = [], printed = []\<rparr>)"
proof -
  let ?c = "exampleConfig hub1 [(''sub-x'', subA\<lparr>HubName := ''nohub''\<rparr>)]"
  have v: "Validate example_cidr_ok example_ip_ok ?c = None"
    by (simp add: Validate_None exampleConfig_def subA_def hub1_def example_cidr_ok_def
        example_ip_ok_def)
  have s: "Subscriptions ?c = [(''sub-x'', subA\<lparr>HubName := ''nohub''\<rparr>)]"
    by (simp add: exampleConfig_def)
  have h: "list_all (\<lambda>hub. Hub_Name hub \<noteq> ''nohub'') (Hubs ?c)"
    by (simp add: exampleConfig_def hub1_def)
  show ?thesis
    using v h by (simp add: EnforceAll_def s example_scope_unresolved)
qed
subsection \<open>C4: a failing scope ends the run\<close>

text \<open>
  Claim C4, as amended. \<^verbatim>\<open>EnforceAll\<close> stops at the first scope, in the order of the
  iteration, whose enforcement returns an error, and returns that error: the scopes before
  it have been processed, and the scopes after it are not processed at all, the result
  and the final state being those of a configuration that ends with the failing scope.
\<close>

theorem C4_run_stops_at_first_failing_scope:
  assumes "Subscriptions config = before @ entry # after"
    and "enforceSubscriptions P isolation config before w = (Ok (), w1)"
    and "enforceSubscription P isolation config entry w1 = (Err e, w2)"
  shows "EnforceAll P isolation config w = (Err e, w2)
         \<and> EnforceAll P isolation (config\<lparr>Subscriptions := before @ [entry]\<rparr>) w = (Err e, w2)"
  using enforceSubscriptions_stops [OF assms(2) assms(3), of after]
    enforceSubscriptions_stops [OF assms(2) assms(3), of "[]"]
  by (simp add: EnforceAll_def assms(1) enforceSubscriptions_Subscriptions)
text \<open>
  Scope \<^verbatim>\<open>sub-a\<close> is reconciled, scope \<^verbatim>\<open>sub-x\<close> fails, scope \<^verbatim>\<open>sub-b\<close> is never
  reached: the only call is the one made for \<^verbatim>\<open>sub-a\<close>.
\<close>

theorem C4_run_stops_witness:
  "EnforceAll (exampleProvider [subnet1] [Inr [internetDefault]] accepts) noIsolation
     (exampleConfig hub1
        [(''sub-a'', subA), (''sub-x'', subA\<lparr>HubName := ''nohub''\<rparr>), (''sub-b'', subA)])
     (world0 ''sub-0'')
   = (Err (HubNotFound ''nohub'' ''sub-x''),
      \<lparr>clientFactory = \<lparr>subscriptionID = ''sub-x''\<rparr>, calls = [rt1Call ''10.0.0.4''], printed = []\<rparr>)"
proof -
  let ?P = "exampleProvider [subnet1] [Inr [internetDefault]] accepts"
  let ?c = "exampleConfig hub1
        [(''sub-a'', subA), (''sub-x'', subA\<lparr>HubName := ''nohub''\<rparr>), (''sub-b'', subA)]"
  let ?w1 = "\<lparr>clientFactory = \<lparr>subscriptionID = ''sub-a''\<rparr>, calls = [rt1Call ''10.0.0.4''], printed = []\<rparr>"
  let ?w2 = "\<lparr>clientFactory = \<lparr>subscriptionID = ''sub-x''\<rparr>, calls = [rt1Call ''10.0.0.4''], printed = []\<rparr>"
  have s: "Subscriptions ?c = [(''sub-a'', subA)] @ (''sub-x'', subA\<lparr>HubName := ''nohub''\<rparr>) # [(''sub-b'', subA)]"
    by (simp add: exampleConfig_def)
  have b: "enforceSubscriptions ?P noIsolation ?c [(''sub-a'', subA)] (world0 ''sub-0'') = (Ok (), ?w1)"
    by (simp add: example_scope_subA world0_def)
  have f: "enforceSubscription ?P noIsolation ?c (''sub-x'', subA\<lparr>HubName := ''nohub''\<rparr>) ?w1
      = (Err (HubNotFound ''nohub'' ''sub-x''), ?w2)"
    by (simp add: example_scope_unresolved)
  show ?thesis
    using C4_run_stops_at_first_failing_scope [OF s b f] by simp
qed
text \<open>
  The claim as stated fails: with the failing scope first, the run ends with no call,
  although the run over scope \<^verbatim>\<open>sub-a\<close> alone issues one.
\<close>

theorem C4_later_scope_not_processed_counterexample:
  "EnforceAll (exampleProvider [subnet1] [Inr [internetDefault]] accepts) noIsolation
     (exampleConfig hub1 [(''sub-x'', subA\<lparr>HubName := ''nohub''\<rparr>), (''sub-a'', subA)])
     \<lparr>clientFactory = \<lparr>subscriptionID = ''sub-0''\<rparr>, calls = [], printed = []\<rparr>
   = (Err (HubNotFound ''nohub'' ''sub-x''),
      \<lparr>clientFactory = \<lparr>subscriptionID = ''sub-x''\<rparr>, calls = [], printed = []\<rparr>)
   \<and> EnforceAll (exampleProvider [subnet1] [Inr [internetDefault]] accepts) noIsolation
       (exampleConfig hub1 [(''sub-a'', subA)])
       \<lparr>clientFactory = \<lparr>subscriptionID = ''sub-0''\<rparr>, calls = [], printed = []\<rparr>
     = (Ok (),
        \<lparr>clientFactory = \<lparr>subscriptionID = ''sub-a''\<rparr>, calls = [rt1Call ''10.0.0.4''], printed = []\<rparr>)"
  by (simp add: EnforceAll_def exampleConfig_def [of hub1 "[(''sub-x'', subA\<lparr>HubName := ''nohub''\<rparr>), (''sub-a'', subA)]", THEN arg_cong [of _ _ Subscriptions]]
      exampleConfig_def [of hub1 "[(''sub-a'', subA)]", THEN arg_cong [of _ _ Subscriptions]]
      example_scope_unresolved example_scope_subA)
subsection \<open>C5: several default routes\<close>

text \<open>
  Claim C5, as amended. A subnet has a route table whose routes are listed without error,
  and all the routes with the prefix \<^verbatim>\<open>0.0.0.0/0\<close> are on one page of the listing. The
  first of them alone decides: the scan returns that a default route exists and that it
  is correct exactly when that first route is compliant, whatever routes follow it; when
  it is compliant the body does nothing, and when it is not (and the hub has an NVA
  address) the body issues the call. The duplicate is tolerated in silence: the body
  prints no warning and returns no error for it.
\<close>

theorem C5_first_default_route_of_page_decides:
  assumes "subnetRouteTableID subnet = Some rtID"
    and "clientError P RoutesClient (subscriptionID (clientFactory w)) = None"
    and "listedRoutes P w rtID = map Inr (pre @ [xs @ d # ys] @ post)"
    and "allHaveProperties (pre @ [xs @ d # ys] @ post)"
    and "\<forall>r\<in>set (concat pre @ xs). \<not> isDefaultRoute r"
    and "isDefaultRoute d"
    and "\<forall>r\<in>set (concat post). \<not> isDefaultRoute r"
  shows "scanRoutePages hubCFG (listedRoutes P w rtID) (False, False)
           = Ok (True, isCompliantRoute hubCFG d)
         \<and> (isCompliantRoute hubCFG d \<longrightarrow> enforceSubnet P hubCFG subnet w = (Ok (), w))
         \<and> (\<not> isCompliantRoute hubCFG d \<and> NVANextHop hubCFG \<noteq> [] \<longrightarrow>
              calls (snd (enforceSubnet P hubCFG subnet w)) =
                calls w @ [defaultRouteCall (subscriptionID (clientFactory w))
                             (rtResourceGroupOf rtID) (rtNameOf rtID) (NVANextHop hubCFG)])
         \<and> printed (snd (enforceSubnet P hubCFG subnet w)) = printed w"
proof -
  have mid: "firstDefaultRoute (xs @ d # ys) = Some d"
    using assms(5,6) by (intro firstDefaultRoute_first) simp_all
  have pre: "\<forall>pg\<in>set pre. firstDefaultRoute pg = None"
    using assms(5) by (auto simp: firstDefaultRoute_None)
  have post: "\<forall>pg\<in>set post. firstDefaultRoute pg = None"
    using assms(7) by (auto simp: firstDefaultRoute_None)
  have ex: "\<exists>pg\<in>set (pre @ [xs @ d # ys] @ post). firstDefaultRoute pg \<noteq> None"
    using mid by simp
  have co: "(\<exists>pg\<in>set (pre @ [xs @ d # ys] @ post). pageFirstCompliant hubCFG pg)
      = isCompliantRoute hubCFG d"
    using mid pre post by (auto simp: pageFirstCompliant_def)
  have "scanRoutePages hubCFG (map Inr (pre @ [xs @ d # ys] @ post)) (False, False)
      = Ok (False \<or> (\<exists>pg\<in>set (pre @ [xs @ d # ys] @ post). firstDefaultRoute pg \<noteq> None),
            False \<or> (\<exists>pg\<in>set (pre @ [xs @ d # ys] @ post). pageFirstCompliant hubCFG pg))"
    by (rule scanRoutePages_result [OF assms(4)])
  also have "\<dots> = Ok (True, isCompliantRoute hubCFG d)"
    using ex by (simp only: co) simp
  finally have scan: "scanRoutePages hubCFG (listedRoutes P w rtID) (False, False)
      = Ok (True, isCompliantRoute hubCFG d)"
    by (simp only: assms(3))
  show ?thesis
    using scan
    by (simp add: enforceSubnet_with_table [OF assms(1) assms(2) scan])
qed
theorem C5_first_default_route_of_page_witness:
  "scanRoutePages hub1 [Inr [localRoute], Inr [goodDefault, internetDefault], Inr [localRoute]] (False, False)
     = Ok (True, True)
   \<and> enforceSubnet
       (exampleProvider [subnet1] [Inr [localRoute], Inr [goodDefault, internetDefault], Inr [localRoute]] accepts)
       hub1 subnet1 (world0 ''sub-a'') = (Ok (), world0 ''sub-a'')"
proof -
  let ?P = "exampleProvider [subnet1] [Inr [localRoute], Inr [goodDefault, internetDefault], Inr [localRoute]] accepts"
  have l: "listedRoutes ?P (world0 ''sub-a'') rt1ID
      = map Inr ([[localRoute]] @ [[] @ goodDefault # [internetDefault]] @ [[localRoute]])"
    by (simp add: exampleProvider_routes)
  have p: "allHaveProperties ([[localRoute]] @ [[] @ goodDefault # [internetDefault]] @ [[localRoute]])"
    using example_routes_props(4) by simp
  have a: "\<forall>r\<in>set (concat [[localRoute]] @ []). \<not> isDefaultRoute r"
    and b: "\<forall>r\<in>set (concat [[localRoute]]). \<not> isDefaultRoute r"
    by (simp_all add: example_routes_kind)
  show ?thesis
    using C5_first_default_route_of_page_decides
      [OF subnet1_table exampleProvider_client l p a example_routes_kind(2) b, of hub1]
    by (simp add: example_routes_kind exampleProvider_routes)
qed
text \<open>
  The claim as stated asks for a warning about the duplicate. A page with two default
  routes, the first one compliant, leaves the state as it was: nothing is printed.
\<close>

theorem C5_duplicate_default_route_counterexample:
  "isDefaultRoute goodDefault \<and> isDefaultRoute internetDefault \<and>
   enforceSubnet (exampleProvider [subnet1] [Inr [goodDefault, internetDefault]] accepts)
     hub1 subnet1 \<lparr>clientFactory = \<lparr>subscriptionID = ''sub-a''\<rparr>, calls = [], printed = []\<rparr>
   = (Ok (), \<lparr>clientFactory = \<lparr>subscriptionID = ''sub-a''\<rparr>, calls = [], printed = []\<rparr>)"
proof -
  let ?P = "exampleProvider [subnet1] [Inr [goodDefault, internetDefault]] accepts"
  let ?w = "\<lparr>clientFactory = \<lparr>subscriptionID = ''sub-a''\<rparr>, calls = [], printed = []\<rparr>"
  have scan: "scanRoutePages hub1 (listedRoutes ?P ?w rt1ID) (False, False) = Ok (True, True)"
    by (simp add: exampleProvider_routes goodDefault_def mkRoute_def hub1_def
        RouteNextHopTypeVirtualAppliance_def)
  have c: "clientError ?P RoutesClient (subscriptionID (clientFactory ?w)) = None"
    by (rule exampleProvider_client)
  show ?thesis
    using enforceSubnet_with_table [OF subnet1_table c scan]
    by (simp add: example_routes_kind)
qed
text \<open>
  When the default routes are spread over several pages, the first one does not decide
  alone: the \<^verbatim>\<open>break\<close> of lines 154 and 158 leaves the loop over one page, and the loop
  over the pages goes on. A compliant default route on a later page makes the subnet count
  as correct although the first default route points elsewhere.
\<close>

lemma later_page_overrides_first_default_route:
  "firstDefaultRoute (concat [[internetDefault], [goodDefault]]) = Some internetDefault
   \<and> \<not> isCompliantRoute hub1 internetDefault
   \<and> scanRoutePages hub1 [Inr [internetDefault], Inr [goodDefault]] (False, False) = Ok (True, True)
   \<and> enforceSubnet (exampleProvider [subnet1] [Inr [internetDefault], Inr [goodDefault]] accepts)
        hub1 subnet1 (world0 ''sub-a'') = (Ok (), world0 ''sub-a'')"
proof -
  let ?P = "exampleProvider [subnet1] [Inr [internetDefault], Inr [goodDefault]] accepts"
  have scan0: "scanRoutePages hub1 [Inr [internetDefault], Inr [goodDefault]] (False, False) = Ok (True, True)"
    by (simp add: goodDefault_def internetDefault_def mkRoute_def hub1_def
        RouteNextHopTypeVirtualAppliance_def)
  then have scan: "scanRoutePages hub1 (listedRoutes ?P (world0 ''sub-a'') rt1ID) (False, False) = Ok (True, True)"
    by (simp add: exampleProvider_routes)
  show ?thesis
    using enforceSubnet_with_table [OF subnet1_table exampleProvider_client scan] scan0
    by (simp add: firstDefaultRoute_def example_routes_kind)
qed
subsection \<open>C6: errors of create-or-update\<close>

text \<open>
  The retry loop of the client, in closed form: when the first \<open>k\<close> attempts fail with
  transient errors and attempt \<open>k\<close> either does not, or is the last one the policy
  allows, the outcome is that of attempt \<open>k\<close>, after one backoff delay for each of the
  \<open>k\<close> retries.
\<close>

lemma attemptsFrom_decided:
  "k \<le> retriesLeft \<Longrightarrow> \<forall>j<k. isTransient (answer (i + j)) \<Longrightarrow>
   \<not> isTransient (answer (i + k)) \<or> k = retriesLeft \<Longrightarrow>
   attemptsFrom policy answer i retriesLeft =
     (answer (i + k), map (\<lambda>j. backoffDelay policy (i + j)) [0..<k])"
proof (induction retriesLeft arbitrary: i k)
  case 0
  then show ?case by simp
next
  case (Suc n)
  show ?case
  proof (cases k)
    case 0
    then show ?thesis using Suc.prems by simp
  next
    case (Suc k')
    have t: "isTransient (answer i)"
      using Suc.prems(2) Suc by (metis add.right_neutral zero_less_Suc)
    have a: "k' \<le> n" using Suc.prems(1) Suc by simp
    have b: "\<forall>j<k'. isTransient (answer (Suc i + j))"
      using Suc.prems(2) Suc by (metis Suc_less_eq add_Suc_shift)
    have c: "\<not> isTransient (answer (Suc i + k')) \<or> k' = n"
      using Suc.prems(3) Suc by simp
    have "map (\<lambda>j. backoffDelay policy (i + j)) [0..<Suc k']
        = backoffDelay policy i # map (\<lambda>j. backoffDelay policy (Suc i + j)) [0..<k']"
      by (simp add: upt_conv_Cons map_Suc_upt [symmetric] del: upt_Suc)
    then show ?thesis
      using Suc.IH [OF a b c] t Suc by simp
  qed
qed

lemma sdkCreateOrUpdate_decided:
  assumes "k \<le> maxRetries policy"
    and "\<forall>j<k. isTransient (answer j)"
    and "\<not> isTransient (answer k) \<or> k = maxRetries policy"
  shows "sdkCreateOrUpdate policy answer = (answer k, map (backoffDelay policy) [0..<k])"
  using attemptsFrom_decided [of k "maxRetries policy" answer 0 policy] assms
  by (simp add: sdkCreateOrUpdate_def)

lemma backoffDelay_bounds:
  "backoffDelay policy i \<le> maxRetryDelay policy
   \<and> min (maxRetryDelay policy) (retryDelay policy * 2 ^ i) \<le> backoffDelay policy i"
  by (simp add: backoffDelay_def)

lemma withRetry_reads:
  "clientError (withRetry policy service P) = clientError P"
  "listedRoutes (withRetry policy service P) w rtID = listedRoutes P w rtID"
  "createOrUpdateError (withRetry policy service P) h c = fst (sdkCreateOrUpdate policy (service h c))"
  by (simp_all add: withRetry_def listedRoutes_def)

lemma example_remediation:
  "scanRoutePages hub1
     (listedRoutes (exampleProvider [subnet1] [Inr [internetDefault]] accepts) (world0 ''sub-a'') rt1ID)
     (False, False) = Ok (True, False)"
  by (simp add: exampleProvider_routes internetDefault_def mkRoute_def
      RouteNextHopTypeVirtualAppliance_def)

text \<open>
  Claim C6. The code calls create-or-update once for a subnet that needs remediation and
  returns what the call returns: on success the loop goes on, and an error is wrapped as
  "failed to create or update default route for subnet" and returned at once. With the
  SDK's client in front of the service, an attempt that fails with a transient error is
  followed by a backoff delay and another attempt, as long as the policy has retries left;
  every delay is bounded by the policy's maximal delay and is at least the base delay
  doubled at each retry, up to that bound; the failure is reported when the last attempt
  the policy allows is transient as well. An attempt that fails with a permanent error is
  the last one: its error is returned with no further attempt, so a permanent error of
  the first attempt is surfaced after one attempt and no delay.
\<close>

theorem C6_transient_retried_permanent_surfaced:
  assumes "subnetRouteTableID subnet = Some rtID"
    and "clientError P RoutesClient (subscriptionID (clientFactory w)) = None"
    and "scanRoutePages hubCFG (listedRoutes P w rtID) (False, False) = Ok (ex, co)"
    and "\<not> ex \<or> \<not> co"
    and "NVANextHop hubCFG \<noteq> []"
    and "Subnet_Name subnet = Some name"
    and "call = defaultRouteCall (subscriptionID (clientFactory w)) (rtResourceGroupOf rtID)
                  (rtNameOf rtID) (NVANextHop hubCFG)"
    and "answer = service (calls w) call"
    and "k \<le> maxRetries policy"
    and "\<forall>i<k. isTransient (answer i)"
    and "\<not> isTransient (answer k) \<or> k = maxRetries policy"
  shows "sdkCreateOrUpdate policy answer = (answer k, map (backoffDelay policy) [0..<k])
         \<and> (\<forall>i<k. backoffDelay policy i \<le> maxRetryDelay policy
                  \<and> min (maxRetryDelay policy) (retryDelay policy * 2 ^ i) \<le> backoffDelay policy i)
         \<and> enforceSubnet (withRetry policy service P) hubCFG subnet w =
             (case answer k of
                None \<Rightarrow> Ok ()
              | Some err \<Rightarrow> Err (FailedCreateOrUpdate name err),
              w\<lparr>calls := calls w @ [call]\<rparr>)"
proof -
  have sdk: "sdkCreateOrUpdate policy answer = (answer k, map (backoffDelay policy) [0..<k])"
    by (rule sdkCreateOrUpdate_decided [OF assms(9) assms(10) assms(11)])
  have client: "clientError (withRetry policy service P) RoutesClient
      (subscriptionID (clientFactory w)) = None"
    using assms(2) by (simp add: withRetry_reads)
  have scan: "scanRoutePages hubCFG (listedRoutes (withRetry policy service P) w rtID) (False, False)
      = Ok (ex, co)"
    using assms(3) by (simp add: withRetry_reads)
  have out: "createOrUpdateError (withRetry policy service P) (calls w) call = answer k"
    using sdk assms(8) by (simp add: withRetry_reads)
  have "enforceSubnet (withRetry policy service P) hubCFG subnet w =
             (case answer k of
                None \<Rightarrow> Ok ()
              | Some err \<Rightarrow> Err (FailedCreateOrUpdate name err),
              w\<lparr>calls := calls w @ [call]\<rparr>)"
    using assms(4,5,6) out
    by (simp add: enforceSubnet_with_table [OF assms(1) client scan] assms(7) [symmetric]
        split: option.splits)
  then show ?thesis
    using sdk backoffDelay_bounds by blast
qed

text \<open>
  With three retries and a base delay of 800: a service that throttles the first attempt
  (the call succeeds after one delay), one that throttles every attempt (the failure is
  reported after four attempts and three doubling delays) and one that forbids the call
  (the error is returned after one attempt).
\<close>

theorem C6_transient_retried_witness:
  "enforceSubnet
     (withRetry examplePolicy throttledOnce (exampleProvider [subnet1] [Inr [internetDefault]] accepts))
     hub1 subnet1 (world0 ''sub-a'')
   = (Ok (), \<lparr>clientFactory = \<lparr>subscriptionID = ''sub-a''\<rparr>, calls = [rt1Call ''10.0.0.4''], printed = []\<rparr>)
   \<and> sdkCreateOrUpdate examplePolicy (throttledOnce [] (rt1Call ''10.0.0.4'')) = (None, [800])
   \<and> enforceSubnet
       (withRetry examplePolicy alwaysThrottled (exampleProvider [subnet1] [Inr [internetDefault]] accepts))
       hub1 subnet1 (world0 ''sub-a'')
     = (Err (FailedCreateOrUpdate ''subnet1'' (TransientError ''429 too many requests'')),
        \<lparr>clientFactory = \<lparr>subscriptionID = ''sub-a''\<rparr>, calls = [rt1Call ''10.0.0.4''], printed = []\<rparr>)
   \<and> sdkCreateOrUpdate examplePolicy (alwaysThrottled [] (rt1Call ''10.0.0.4''))
     = (Some (TransientError ''429 too many requests''), [800, 1600, 3200])
   \<and> enforceSubnet
       (withRetry examplePolicy forbidden (exampleProvider [subnet1] [Inr [internetDefault]] accepts))
       hub1 subnet1 (world0 ''sub-a'')
     = (Err (FailedCreateOrUpdate ''subnet1'' (PermanentError ''403 forbidden'')),
        \<lparr>clientFactory = \<lparr>subscriptionID = ''sub-a''\<rparr>, calls = [rt1Call ''10.0.0.4''], printed = []\<rparr>)
   \<and> sdkCreateOrUpdate examplePolicy (forbidden [] (rt1Call ''10.0.0.4''))
     = (Some (PermanentError ''403 forbidden''), [])"
proof -
  let ?P = "exampleProvider [subnet1] [Inr [internetDefault]] accepts"
  let ?w = "world0 ''sub-a''"
  have d: "\<not> True \<or> \<not> False" by simp
  have n: "NVANextHop hub1 \<noteq> []" by (simp add: hub1_def)
  have m: "Subnet_Name subnet1 = Some ''subnet1''" by (simp add: subnet1_def)
  have c: "rt1Call ''10.0.0.4'' = defaultRouteCall (subscriptionID (clientFactory ?w))
      (rtResourceGroupOf rt1ID) (rtNameOf rt1ID) (NVANextHop hub1)"
    by (simp add: world0_def rt1ID_parts hub1_def rt1Call_eq)
  have h: "calls ?w = []" by (simp add: world0_def)
  have w: "?w\<lparr>calls := calls ?w @ [rt1Call ''10.0.0.4'']\<rparr>
      = \<lparr>clientFactory = \<lparr>subscriptionID = ''sub-a''\<rparr>, calls = [rt1Call ''10.0.0.4''], printed = []\<rparr>"
    by (simp add: world0_def)
  have r: "maxRetries examplePolicy = 3" "retryDelay examplePolicy = 800"
    "maxRetryDelay examplePolicy = 60000" "jitter examplePolicy = (\<lambda>i. 0)"
    by (simp_all add: examplePolicy_def)
  have b: "backoffDelay examplePolicy 0 = 800"
    "map (backoffDelay examplePolicy) [0..<3] = [800, 1600, 3200]"
    by (simp_all add: backoffDelay_def r upt_rec)
  have once: "throttledOnce (calls ?w) (rt1Call ''10.0.0.4'') = throttledOnce [] (rt1Call ''10.0.0.4'')"
    by (simp add: h)
  have t1: "(1::nat) \<le> maxRetries examplePolicy"
    and t2: "\<forall>i<(1::nat). isTransient (throttledOnce [] (rt1Call ''10.0.0.4'') i)"
    and t3: "\<not> isTransient (throttledOnce [] (rt1Call ''10.0.0.4'') 1) \<or> (1::nat) = maxRetries examplePolicy"
    by (simp_all add: r throttledOnce_def isTransient_def)
  have always: "alwaysThrottled (calls ?w) (rt1Call ''10.0.0.4'') = alwaysThrottled [] (rt1Call ''10.0.0.4'')"
    by (simp add: h)
  have a1: "(3::nat) \<le> maxRetries examplePolicy"
    and a2: "\<forall>i<(3::nat). isTransient (alwaysThrottled [] (rt1Call ''10.0.0.4'') i)"
    and a3: "\<not> isTransient (alwaysThrottled [] (rt1Call ''10.0.0.4'') 3) \<or> (3::nat) = maxRetries examplePolicy"
    by (simp_all add: r alwaysThrottled_def isTransient_def)
  have forb: "forbidden (calls ?w) (rt1Call ''10.0.0.4'') = forbidden [] (rt1Call ''10.0.0.4'')"
    by (simp add: h)
  have f1: "(0::nat) \<le> maxRetries examplePolicy"
    and f2: "\<forall>i<(0::nat). isTransient (forbidden [] (rt1Call ''10.0.0.4'') i)"
    and f3: "\<not> isTransient (forbidden [] (rt1Call ''10.0.0.4'') 0) \<or> (0::nat) = maxRetries examplePolicy"
    by (simp_all add: forbidden_def isTransient_def)
  note T = C6_transient_retried_permanent_surfaced
    [where P = "?P" and w = "?w" and service = throttledOnce and policy = examplePolicy
       and answer = "throttledOnce [] (rt1Call ''10.0.0.4'')" and k = 1 and call = "rt1Call ''10.0.0.4''",
     OF subnet1_table exampleProvider_client example_remediation d n m c once [symmetric] t1 t2 t3]
  note A = C6_transient_retried_permanent_surfaced
    [where P = "?P" and w = "?w" and service = alwaysThrottled and policy = examplePolicy
       and answer = "alwaysThrottled [] (rt1Call ''10.0.0.4'')" and k = 3 and call = "rt1Call ''10.0.0.4''",
     OF subnet1_table exampleProvider_client example_remediation d n m c always [symmetric] a1 a2 a3]
  note F = C6_transient_retried_permanent_surfaced
    [where P = "?P" and w = "?w" and service = forbidden and policy = examplePolicy
       and answer = "forbidden [] (rt1Call ''10.0.0.4'')" and k = 0 and call = "rt1Call ''10.0.0.4''",
     OF subnet1_table exampleProvider_client example_remediation d n m c forb [symmetric] f1 f2 f3]
  show ?thesis
    using T A F
    by (simp add: w b throttledOnce_def alwaysThrottled_def forbidden_def)
qed

subsection \<open>C7: applying the calls of a scope twice\<close>

text \<open>
  Claim C7. Every call that the routing enforcement of a scope issues puts the same full
  payload (the default route towards the hub's NVA) under the fixed route name, whatever
  the state it has read; so applying the calls of a scope to a topology a second time
  leaves the topology as the first application left it.
\<close>

theorem C7_applying_the_calls_twice_is_applying_them_once:
  "list_all (isDefaultRouteCall hubCFG) (issued w (snd (enforceNVARouting P subID hubCFG w)))
   \<and> applyCalls (applyCalls t (issued w (snd (enforceNVARouting P subID hubCFG w))))
        (issued w (snd (enforceNVARouting P subID hubCFG w)))
     = applyCalls t (issued w (snd (enforceNVARouting P subID hubCFG w)))"
  using enforceNVARouting_step [of hubCFG w P subID]
  by (simp add: routingStep_def applyCalls_twice)
theorem C7_applying_the_calls_twice_witness:
  "issued (world0 ''sub-a'')
     (snd (enforceNVARouting (exampleProvider [subnet1] [Inr [internetDefault]] accepts) ''sub-a'' hub1
        (world0 ''sub-a''))) = [rt1Call ''10.0.0.4'']
   \<and> applyCalls (applyCalls Map.empty [rt1Call ''10.0.0.4'']) [rt1Call ''10.0.0.4'']
     = applyCalls Map.empty [rt1Call ''10.0.0.4'']"
proof -
  have i: "issued (world0 ''sub-a'')
     (snd (enforceNVARouting (exampleProvider [subnet1] [Inr [internetDefault]] accepts) ''sub-a'' hub1
        (world0 ''sub-a''))) = [rt1Call ''10.0.0.4'']"
    using example_subnet1_call
    by (simp add: example_enforceNVARouting world0_def issued_def)
  show ?thesis
    using C7_applying_the_calls_twice_is_applying_them_once
      [of hub1 "world0 ''sub-a''" "exampleProvider [subnet1] [Inr [internetDefault]] accepts"
          "''sub-a''" Map.empty]
    by (simp add: i)
qed
subsection \<open>C8: a subnet without a route table\<close>

text \<open>
  Claim C8. For a subnet without a route table the body of the subnet loop prints the
  warning "No route table found for subnet" with the subnet's name, issues no call and
  returns no error, and the loop goes on with the remaining subnets.
\<close>

theorem C8_subnet_without_route_table_skipped:
  assumes "Subnet_Properties subnet = Some sprops"
    and "Subnet_RouteTable sprops = None"
    and "Subnet_Name subnet = Some name"
  shows "enforceSubnet P hubCFG subnet w =
           (Ok (), w\<lparr>printed := printed w @ [''WARNING: No route table found for subnet: '' @ name]\<rparr>)
         \<and> calls (snd (enforceSubnet P hubCFG subnet w)) = calls w
         \<and> enforceSubnets P hubCFG (subnet # rest) w =
             enforceSubnets P hubCFG rest
               (w\<lparr>printed := printed w @ [''WARNING: No route table found for subnet: '' @ name]\<rparr>)"
  using assms by (simp add: enforceSubnet_def noRouteTableWarning_def)
theorem C8_subnet_without_route_table_witness:
  "enforceSubnets (exampleProvider [subnetNoTable, subnet1] [Inr [localRoute]] accepts) hub1
     [subnetNoTable, subnet1] (world0 ''sub-a'')
   = (Ok (), \<lparr>clientFactory = \<lparr>subscriptionID = ''sub-a''\<rparr>, calls = [rt1Call ''10.0.0.4''],
        printed = [''WARNING: No route table found for subnet: subnet0'']\<rparr>)"
proof -
  have a: "Subnet_Properties subnetNoTable = Some \<lparr>Subnet_RouteTable = None\<rparr>"
    "Subnet_RouteTable \<lparr>Subnet_RouteTable = None\<rparr> = None"
    "Subnet_Name subnetNoTable = Some ''subnet0''"
    by (simp_all add: subnetNoTable_def)
  let ?P = "exampleProvider [subnetNoTable, subnet1] [Inr [localRoute]] accepts"
  let ?w = "(world0 ''sub-a'')\<lparr>printed := printed (world0 ''sub-a'') @ [''WARNING: No route table found for subnet: '' @ ''subnet0'']\<rparr>"
  have scan: "scanRoutePages hub1 (listedRoutes ?P ?w rt1ID) (False, False) = Ok (False, False)"
    by (simp add: exampleProvider_routes localRoute_def mkRoute_def)
  have c: "clientError ?P RoutesClient (subscriptionID (clientFactory ?w)) = None"
    by (rule exampleProvider_client)
  have n: "NVANextHop hub1 = ''10.0.0.4''" by (simp add: hub1_def)
  have s: "enforceSubnet ?P hub1 subnet1 ?w =
      (Ok (), \<lparr>clientFactory = \<lparr>subscriptionID = ''sub-a''\<rparr>, calls = [rt1Call ''10.0.0.4''],
        printed = [''WARNING: No route table found for subnet: subnet0'']\<rparr>)"
    using enforceSubnet_with_table [OF subnet1_table c scan]
    by (simp add: n world0_def rt1ID_parts rt1Call_eq exampleProvider_answer accepts_def)
  show ?thesis
    using C8_subnet_without_route_table_skipped [OF a, of ?P hub1 "world0 ''sub-a''" "[subnet1]"] s
    by simp
qed
subsection \<open>C9: the shared client factory\<close>

text \<open>
  Claim C9, as amended. Processing a scope writes the scope's identifier into the
  subscription field of the shared client factory: whatever the outcome of the scope, the
  field holds its identifier afterwards (subnet isolation leaving the factory alone), and
  after a run without error over at least one scope it holds the identifier of the last
  scope of the iteration.
\<close>

theorem C9_scope_overwrites_shared_subscription:
  assumes "\<forall>s v. clientFactory (snd (isolation s v)) = clientFactory v"
  shows "subscriptionID (clientFactory (snd (enforceSubscription P isolation config (subID, subCFG) w)))
           = subID
         \<and> (Subscriptions config \<noteq> [] \<and> fst (EnforceAll P isolation config w) = Ok ()
              \<longrightarrow> subscriptionID (clientFactory (snd (EnforceAll P isolation config w)))
                    = fst (last (Subscriptions config)))"
proof -
  have "subscriptionID (clientFactory (snd (EnforceAll P isolation config w)))
      = fst (last (Subscriptions config))"
    if ne: "Subscriptions config \<noteq> []" and ok: "fst (EnforceAll P isolation config w) = Ok ()"
  proof -
    obtain w' where "enforceSubscriptions P isolation config (Subscriptions config) w = (Ok (), w')"
      using ok by (cases "EnforceAll P isolation config w") (simp add: EnforceAll_def)
    then show ?thesis
      using enforceSubscriptions_factory [OF assms ne] by (simp add: EnforceAll_def)
  qed
  then show ?thesis
    using enforceSubscription_factory [OF assms] by blast
qed
theorem C9_scope_overwrites_witness:
  "subscriptionID (clientFactory (snd (enforceSubscription
      (exampleProvider [subnet1] [Inr [internetDefault]] accepts) noIsolation
      (exampleConfig hub1 [(''sub-a'', subA)]) (''sub-a'', subA) (world0 ''sub-0'')))) = ''sub-a''"
proof -
  have i: "\<forall>s v. clientFactory (snd (noIsolation s v)) = clientFactory v"
    by (simp add: noIsolation_def)
  show ?thesis
    using C9_scope_overwrites_shared_subscription [OF i] by blast
qed
text \<open>
  The claim as stated fails: the factory is made for \<^verbatim>\<open>sub-0\<close>, and after the run over
  the compliant scope \<^verbatim>\<open>sub-a\<close> it holds \<^verbatim>\<open>sub-a\<close>.
\<close>

theorem C9_shared_client_mutated_counterexample:
  "subscriptionID (clientFactory \<lparr>clientFactory = \<lparr>subscriptionID = ''sub-0''\<rparr>, calls = [], printed = []\<rparr>)
     = ''sub-0''
   \<and> subscriptionID (clientFactory (snd (EnforceAll
        (exampleProvider [subnet1] [Inr [goodDefault]] accepts) noIsolation
        (exampleConfig hub1 [(''sub-a'', subA)])
        \<lparr>clientFactory = \<lparr>subscriptionID = ''sub-0''\<rparr>, calls = [], printed = []\<rparr>))) = ''sub-a''"
proof -
  have i: "\<forall>s v. clientFactory (snd (noIsolation s v)) = clientFactory v"
    by (simp add: noIsolation_def)
  let ?P = "exampleProvider [subnet1] [Inr [goodDefault]] accepts"
  let ?c = "exampleConfig hub1 [(''sub-a'', subA)]"
  let ?w = "\<lparr>clientFactory = \<lparr>subscriptionID = ''sub-0''\<rparr>, calls = [], printed = []\<rparr>"
  have s: "Subscriptions ?c = [(''sub-a'', subA)]"
    by (simp add: exampleConfig_def)
  obtain r w' where e: "enforceSubscription ?P noIsolation ?c (''sub-a'', subA) ?w = (r, w')"
    by (cases "enforceSubscription ?P noIsolation ?c (''sub-a'', subA) ?w")
  then have "subscriptionID (clientFactory w') = ''sub-a''"
    using enforceSubscription_factory [OF i, of ?P ?c "''sub-a''" subA ?w] by simp
  then show ?thesis
    using e by (cases r) (simp_all add: EnforceAll_def s)
qed
subsection \<open>C10: a hub without an NVA address\<close>


end
